theory Spec2Isabelle
  imports Main
begin

section \<open>JavaScript values\<close>

text \<open>
  The server keeps one table, \<^verbatim>\<open>const rooms = {}\<close>, and reacts to socket events whose
  payloads are whatever the client sent. Payload fields are therefore JavaScript values:
  \<^verbatim>\<open>undefined\<close> (a field that is missing), \<^verbatim>\<open>null\<close>, booleans, numbers, strings,
  arrays and plain objects (what the transport's JSON decoding produces).

  A string is a list of code units; a \<^typ>\<open>char\<close> stands for the code unit of the same
  number, so the strings of the model are those whose code units are below 256.

  A number is held as the decimal that \<^verbatim>\<open>Number.prototype.toString\<close> prints for it:
  \<open>Dec neg m e\<close> is \<open>\<plusminus> m \<times> 10\<^sup>e\<close> (\<open>Dec neg 0 e\<close> is zero). For a double this is
  the shortest decimal that reads back as the same double. Every integer below
  \<open>2\<^sup>5\<^sup>3\<close> is itself a double, so the decimal and the double have the same sign, are
  integers together, truncate to the same integer and compare alike with an array
  length; nothing else about a number is used below.
\<close>

datatype jsnum = NaN | Infinity bool | Dec bool nat int

datatype jsval =
    JUndefined
  | JNull
  | JBool bool
  | JNumber jsnum
  | JString string
  | JArray "jsval list"
  | JObject "(string \<times> jsval) list"

datatype error = TypeError

text \<open>Truthiness (\<^verbatim>\<open>ToBoolean\<close>): the falsy values are \<^verbatim>\<open>undefined\<close>, \<^verbatim>\<open>null\<close>,
  \<^verbatim>\<open>false\<close>, \<^verbatim>\<open>NaN\<close>, zero and the empty string.\<close>

fun truthy :: "jsval \<Rightarrow> bool" where
  "truthy JUndefined = False"
| "truthy JNull = False"
| "truthy (JBool b) = b"
| "truthy (JNumber NaN) = False"
| "truthy (JNumber (Infinity neg)) = True"
| "truthy (JNumber (Dec neg m e)) = (m \<noteq> 0)"
| "truthy (JString s) = (s \<noteq> [])"
| "truthy (JArray xs) = True"
| "truthy (JObject kvs) = True"

subsection \<open>Number to string\<close>

definition digit_char :: "nat \<Rightarrow> char" where
  "digit_char d = char_of (48 + d)"

fun digits_of :: "nat \<Rightarrow> string" where
  "digits_of n =
     (if n < 10 then [digit_char n] else digits_of (n div 10) @ [digit_char (n mod 10)])"

declare digits_of.simps [simp del]

definition strip_zeros :: "string \<Rightarrow> string" where
  "strip_zeros ds = rev (dropWhile (\<lambda>c. c = CHR ''0'') (rev ds))"

text \<open>
  \<^verbatim>\<open>Number::toString\<close> of the language standard, for a positive number: with \<open>s\<close> the
  digits without trailing zeros, \<open>k\<close> their count and \<open>n\<close> the position of the decimal
  point (the value is \<open>0.s \<times> 10\<^sup>n\<close>), plain notation is used for \<open>-5 \<le> n \<le> 21\<close> and
  exponent notation otherwise.
\<close>

definition positive_to_string :: "nat \<Rightarrow> int \<Rightarrow> string" where
  "positive_to_string m e =
     (let ds = digits_of m;
          n = e + int (length ds);
          s = strip_zeros ds;
          k = int (length s)
      in if - 5 \<le> n \<and> n \<le> 21 then
           (if k \<le> n then s @ replicate (nat (n - k)) (CHR ''0'')
            else if 0 < n then take (nat n) s @ ''.'' @ drop (nat n) s
            else ''0.'' @ replicate (nat (- n)) (CHR ''0'') @ s)
         else
           (let ex = (if n < 0 then ''-'' else ''+'') @ digits_of (nat \<bar>n - 1\<bar>)
            in if k = 1 then s @ ''e'' @ ex
               else take 1 s @ ''.'' @ drop 1 s @ ''e'' @ ex))"

fun number_to_string :: "jsnum \<Rightarrow> string" where
  "number_to_string NaN = ''NaN''"
| "number_to_string (Infinity neg) = (if neg then ''-Infinity'' else ''Infinity'')"
| "number_to_string (Dec neg m e) =
     (if m = 0 then ''0''
      else (if neg then ''-'' else '''') @ positive_to_string m e)"

subsection \<open>Value to string\<close>

text \<open>
  \<^verbatim>\<open>ToString\<close>. An array prints its elements joined by commas, \<^verbatim>\<open>undefined\<close> and
  \<^verbatim>\<open>null\<close> elements as nothing. A plain object prints as \<^verbatim>\<open>[object Object]\<close> through
  the inherited \<^verbatim>\<open>toString\<close>; when the object has a property \<^verbatim>\<open>toString\<close> of its own
  (a decoded value, never a function) the conversion finds no method that returns a
  primitive and throws a \<^verbatim>\<open>TypeError\<close>.
\<close>

fun ToString :: "jsval \<Rightarrow> error + string"
  and join :: "jsval list \<Rightarrow> error + string" where
  "ToString JUndefined = Inr ''undefined''"
| "ToString JNull = Inr ''null''"
| "ToString (JBool b) = Inr (if b then ''true'' else ''false'')"
| "ToString (JNumber x) = Inr (number_to_string x)"
| "ToString (JString s) = Inr s"
| "ToString (JArray xs) = join xs"
| "ToString (JObject kvs) =
     (case map_of kvs ''toString'' of
        Some v \<Rightarrow> Inl TypeError
      | None \<Rightarrow> Inr ''[object Object]'')"
| "join [] = Inr ''''"
| "join (x # xs) =
     (case (if x = JUndefined \<or> x = JNull then Inr '''' else ToString x) of
        Inl err \<Rightarrow> Inl err
      | Inr s \<Rightarrow>
          (if xs = [] then Inr s
           else (case join xs of Inl err \<Rightarrow> Inl err | Inr t \<Rightarrow> Inr (s @ '','' @ t))))"

subsection \<open>parseInt\<close>

text \<open>
  \<^verbatim>\<open>parseInt(x)\<close> with no radix: convert to a string, drop leading white space, read
  an optional sign, switch to radix 16 after a \<^verbatim>\<open>0x\<close> or \<^verbatim>\<open>0X\<close> prefix, and read the
  longest run of digits of the radix; no digit gives \<^verbatim>\<open>NaN\<close>. The result is
  \<open>None\<close> for \<^verbatim>\<open>NaN\<close> and the integer read otherwise. (The program only compares the
  result with \<open>0\<close> and with an array length and uses it as an array position when it is
  in range, where \<^verbatim>\<open>-0\<close> behaves as \<open>0\<close> and rounding a long digit run to a double
  changes no comparison.)
\<close>

definition is_white_space :: "char \<Rightarrow> bool" where
  "is_white_space c = ((of_char c :: nat) \<in> {9, 10, 11, 12, 13, 32, 160})"

definition digit_value :: "char \<Rightarrow> nat option" where
  "digit_value c =
     (let u = (of_char c :: nat) in
      if 48 \<le> u \<and> u \<le> 57 then Some (u - 48)
      else if 97 \<le> u \<and> u \<le> 122 then Some (u - 87)
      else if 65 \<le> u \<and> u \<le> 90 then Some (u - 55)
      else None)"

definition is_radix_digit :: "nat \<Rightarrow> char \<Rightarrow> bool" where
  "is_radix_digit R c = (case digit_value c of Some d \<Rightarrow> d < R | None \<Rightarrow> False)"

definition radix_value :: "nat \<Rightarrow> string \<Rightarrow> nat" where
  "radix_value R z = foldl (\<lambda>acc c. acc * R + the (digit_value c)) 0 z"

definition parse_radix :: "nat \<Rightarrow> string \<Rightarrow> nat option" where
  "parse_radix R s =
     (let z = takeWhile (is_radix_digit R) s
      in if z = [] then None else Some (radix_value R z))"

definition parse_unsigned :: "string \<Rightarrow> nat option" where
  "parse_unsigned s =
     (if take 2 s = ''0x'' \<or> take 2 s = ''0X'' then parse_radix 16 (drop 2 s)
      else parse_radix 10 s)"

definition parseInt_string :: "string \<Rightarrow> int option" where
  "parseInt_string inputString =
     (let s = dropWhile is_white_space inputString;
          neg = (s \<noteq> [] \<and> hd s = CHR ''-'');
          s' = (if s \<noteq> [] \<and> (hd s = CHR ''+'' \<or> hd s = CHR ''-'') then tl s else s)
      in map_option (\<lambda>v. if neg then - int v else int v) (parse_unsigned s'))"

definition parseInt :: "jsval \<Rightarrow> error + int option" where
  "parseInt x = (case ToString x of Inl err \<Rightarrow> Inl err | Inr s \<Rightarrow> Inr (parseInt_string s))"

section \<open>The room table\<close>

text \<open>
  A room is the object that \<^verbatim>\<open>create-room\<close> stores:
  \<^verbatim>\<open>{ host: socket.id, queue: [], currentSong: null }\<close>.
\<close>

record room =
  host :: string
  queue :: "jsval list"
  currentSong :: jsval

text \<open>
  \<^verbatim>\<open>rooms\<close> is an object literal, so \<^verbatim>\<open>rooms[roomId]\<close> finds the properties of
  \<^verbatim>\<open>rooms\<close> itself (the rooms) and, for a name that is none of them, the properties
  that every object inherits from \<^verbatim>\<open>Object.prototype\<close>. At the start those are eleven
  functions and, under \<^verbatim>\<open>__proto__\<close>, the prototype object itself: all of them
  truthy, none of them with a \<^verbatim>\<open>host\<close>, a \<^verbatim>\<open>queue\<close> or a \<^verbatim>\<open>currentSong\<close>. For
  every other name the value is \<^verbatim>\<open>undefined\<close>.
\<close>

definition object_prototype_names :: "string list" where
  "object_prototype_names =
     [''constructor'', ''__defineGetter__'', ''__defineSetter__'', ''hasOwnProperty'',
      ''__lookupGetter__'', ''__lookupSetter__'', ''isPrototypeOf'',
      ''propertyIsEnumerable'', ''toString'', ''valueOf'', ''__proto__'',
      ''toLocaleString'']"

text \<open>
  A handler that finds one of these objects treats it as a room, and two statements of
  the handlers give it properties of its own: \<^verbatim>\<open>rooms[roomId].queue = []\<close> and
  \<^verbatim>\<open>rooms[roomId].currentSong = ...\<close>. So such an object has two slots, both empty at
  the start. A queue stored in a slot is an array, changed in place by \<^verbatim>\<open>push\<close>,
  \<^verbatim>\<open>shift\<close> and \<^verbatim>\<open>splice\<close> like the queue of a room.
\<close>

record slots =
  own_queue :: "jsval list option"
  own_currentSong :: "jsval option"

definition no_slots :: slots where
  "no_slots = \<lparr> own_queue = None, own_currentSong = None \<rparr>"

text \<open>
  \<^verbatim>\<open>Object.prototype\<close> is the one of them that every other object inherits from. Once
  \<^verbatim>\<open>rooms["__proto__"].queue = []\<close> has given it a queue, that array is what the eleven
  functions read as their \<^verbatim>\<open>queue\<close> as long as they have none of their own, and it is
  what \<^verbatim>\<open>rooms["queue"]\<close> finds: an object again, with two slots of its own, which
  inherits from \<^verbatim>\<open>Object.prototype\<close> too. So the prototype's queue is kept with the
  elements of the array and the slots of the array; a new assignment replaces both.
\<close>

record object_prototype =
  its_queue :: "(jsval list \<times> slots) option"
  its_currentSong :: "jsval option"

text \<open>
  The state: the table, the slots of the eleven functions, \<^verbatim>\<open>Object.prototype\<close>, and
  \<open>beyond\<close>. As long as the \<^verbatim>\<open>currentSong\<close> of \<^verbatim>\<open>Object.prototype\<close> is absent or
  falsy, the objects that \<^verbatim>\<open>rooms[roomId]\<close> can find are the rooms, the eleven
  functions, the prototype and the prototype's queue, whose properties only the
  handlers write; \<open>beyond\<close> is \<open>None\<close>. When a handler stores a truthy value there,
  \<^verbatim>\<open>rooms["currentSong"]\<close> finds it: a value that a client sent, which every object
  reads as its \<^verbatim>\<open>currentSong\<close> unless it has one of its own. What a handler does with
  such a value depends on the properties the client gave it, down to how the language
  compares an arbitrary value with a number. That part of the language is not
  described here: from that assignment on, what the handlers do with an object that
  is not a room is a parameter (see \<open>runtime\<close> below), and \<open>beyond\<close> holds whatever
  that parameter keeps, of a type \<open>'x\<close> of its choice. A room has its three
  properties of its own, so what the handlers do with a room is never affected.
\<close>

record 'x state =
  rooms :: "string \<rightharpoonup> room"
  builtins :: "string \<Rightarrow> slots"
  proto :: object_prototype
  beyond :: "'x option"

definition init :: "'x state" where
  "init = \<lparr> rooms = Map.empty, builtins = (\<lambda>k. no_slots),
            proto = \<lparr> its_queue = None, its_currentSong = None \<rparr>, beyond = None \<rparr>"

text \<open>\<^verbatim>\<open>rooms[roomId] = room\<close>, and a change of a field of the room stored there.\<close>

definition put_room :: "'x state \<Rightarrow> string \<Rightarrow> room \<Rightarrow> 'x state" where
  "put_room st k r = st\<lparr> rooms := (rooms st)(k \<mapsto> r) \<rparr>"

text \<open>
  What \<^verbatim>\<open>rooms[roomId]\<close> finds: a room; or, while \<open>beyond\<close> is \<open>None\<close>, one of the
  eleven functions, the prototype, or the prototype's queue if it has one; or, after
  that, an object that is not a room, under one of the twelve names or under
  \<^verbatim>\<open>queue\<close> and \<^verbatim>\<open>currentSong\<close>, the only names the handlers assign to; or nothing.
  Before that \<^verbatim>\<open>rooms["currentSong"]\<close> is absent or falsy, which is nothing to the
  test \<^verbatim>\<open>if (rooms[roomId])\<close>.
\<close>

datatype inherited = Function string | Prototype | PrototypeQueue

datatype 'x found = Room room | Inherited inherited | Beyond 'x | Missing

definition rooms_get :: "'x state \<Rightarrow> string \<Rightarrow> 'x found" where
  "rooms_get st roomId =
     (case rooms st roomId of
        Some r \<Rightarrow> Room r
      | None \<Rightarrow>
          (case beyond st of
             None \<Rightarrow>
               if roomId = ''__proto__'' then Inherited Prototype
               else if roomId \<in> set object_prototype_names then Inherited (Function roomId)
               else if roomId = ''queue'' \<and> its_queue (proto st) \<noteq> None
               then Inherited PrototypeQueue
               else Missing
           | Some x \<Rightarrow>
               if roomId \<in> set object_prototype_names \<or> roomId = ''queue''
                  \<or> roomId = ''currentSong''
               then Beyond x else Missing))"

text \<open>
  Reading a property of an inherited object \<open>obj\<close>: its own slot if it is filled, and
  otherwise what it inherits from \<^verbatim>\<open>Object.prototype\<close>. \<open>None\<close> and
  \<^verbatim>\<open>undefined\<close> stand for a property found nowhere. The prototype's queue, read
  without a queue of its own, inherits itself.
\<close>

definition prototype_array :: "'x state \<Rightarrow> jsval list option" where
  "prototype_array st = map_option fst (its_queue (proto st))"

definition prototype_song :: "'x state \<Rightarrow> jsval" where
  "prototype_song st = (case its_currentSong (proto st) of Some v \<Rightarrow> v | None \<Rightarrow> JUndefined)"

definition slots_of :: "'x state \<Rightarrow> inherited \<Rightarrow> slots" where
  "slots_of st obj =
     (case obj of
        Function k \<Rightarrow> builtins st k
      | Prototype \<Rightarrow> no_slots
      | PrototypeQueue \<Rightarrow> (case its_queue (proto st) of Some (a, s) \<Rightarrow> s | None \<Rightarrow> no_slots))"

definition get_queue :: "'x state \<Rightarrow> inherited \<Rightarrow> jsval list option" where
  "get_queue st obj =
     (case own_queue (slots_of st obj) of Some q \<Rightarrow> Some q | None \<Rightarrow> prototype_array st)"

definition get_currentSong :: "'x state \<Rightarrow> inherited \<Rightarrow> jsval" where
  "get_currentSong st obj =
     (case own_currentSong (slots_of st obj) of Some v \<Rightarrow> v | None \<Rightarrow> prototype_song st)"

definition queue_value :: "jsval list option \<Rightarrow> jsval" where
  "queue_value q = (case q of Some xs \<Rightarrow> JArray xs | None \<Rightarrow> JUndefined)"

text \<open>
  Writing. \<open>put_slots\<close> stores the slots of a function or of the prototype's queue.
  \<open>assign_queue\<close> is \<^verbatim>\<open>obj.queue = q\<close>: it fills the slot of the object, and on the
  prototype it replaces the prototype's queue by a new array. \<open>change_queue\<close> is a
  call of \<^verbatim>\<open>push\<close>, \<^verbatim>\<open>shift\<close> or \<^verbatim>\<open>splice\<close> on \<^verbatim>\<open>obj.queue\<close> that leaves the array
  with the elements \<open>q\<close>: the array changed is the one \<open>get_queue\<close> reads, the
  object's own or the prototype's.
\<close>

definition put_slots :: "'x state \<Rightarrow> inherited \<Rightarrow> slots \<Rightarrow> 'x state" where
  "put_slots st obj s =
     (case obj of
        Function k \<Rightarrow> st\<lparr> builtins := (builtins st)(k := s) \<rparr>
      | Prototype \<Rightarrow> st
      | PrototypeQueue \<Rightarrow>
          (case its_queue (proto st) of
             Some (a, old) \<Rightarrow> st\<lparr> proto := (proto st)\<lparr> its_queue := Some (a, s) \<rparr> \<rparr>
           | None \<Rightarrow> st))"

definition put_prototype_array :: "'x state \<Rightarrow> jsval list \<Rightarrow> 'x state" where
  "put_prototype_array st q =
     (case its_queue (proto st) of
        Some (a, s) \<Rightarrow> st\<lparr> proto := (proto st)\<lparr> its_queue := Some (q, s) \<rparr> \<rparr>
      | None \<Rightarrow> st)"

definition assign_queue :: "'x state \<Rightarrow> inherited \<Rightarrow> jsval list \<Rightarrow> 'x state" where
  "assign_queue st obj q =
     (case obj of
        Prototype \<Rightarrow> st\<lparr> proto := (proto st)\<lparr> its_queue := Some (q, no_slots) \<rparr> \<rparr>
      | _ \<Rightarrow> put_slots st obj ((slots_of st obj)\<lparr> own_queue := Some q \<rparr>))"

definition change_queue :: "'x state \<Rightarrow> inherited \<Rightarrow> jsval list \<Rightarrow> 'x state" where
  "change_queue st obj q =
     (case own_queue (slots_of st obj) of
        Some old \<Rightarrow> put_slots st obj ((slots_of st obj)\<lparr> own_queue := Some q \<rparr>)
      | None \<Rightarrow> put_prototype_array st q)"

section \<open>What a handler does to the transport\<close>

text \<open>
  A handler calls the transport: \<^verbatim>\<open>socket.join(room)\<close>, \<^verbatim>\<open>socket.emit\<close> (to the
  sender only), \<^verbatim>\<open>io.to(room).emit\<close> (to every connection in the room) and
  \<^verbatim>\<open>socket.to(room).emit\<close> (to every connection in the room but the sender). The calls
  are recorded in order.
\<close>

datatype target = ToSender | IoTo string | SocketTo jsval

datatype effect = Join string | Emit target string "jsval list"

text \<open>
  Who receives an emit, given the transport's table of which connections are in which
  room. A connection is in the room named by its own id from the start, which is how
  \<^verbatim>\<open>socket.to(rooms[roomId].host)\<close> addresses the host.
\<close>

fun recipients :: "(string \<Rightarrow> string set) \<Rightarrow> string \<Rightarrow> target \<Rightarrow> string set" where
  "recipients adapter sid ToSender = {sid}"
| "recipients adapter sid (IoTo r) = adapter r"
| "recipients adapter sid (SocketTo (JString r)) = adapter r - {sid}"
| "recipients adapter sid (SocketTo v) = {}"

text \<open>How a handler ends: it throws, or it returns, with the new state and the
  transport calls it made.\<close>

type_synonym 'x outcome = "error + 'x state \<times> effect list"

section \<open>The socket handlers\<close>

text \<open>
  The inbound events. An event arrives with the payload of its schema: a room id that
  is a string, and for the events with several fields an object, whose other fields
  are any value (\<^verbatim>\<open>undefined\<close> when left out). \<^verbatim>\<open>create-room\<close> carries the integer
  that \<^verbatim>\<open>Math.floor(100000 + Math.random() * 900000)\<close> draws.
\<close>

datatype event =
    CreateRoom nat
  | JoinRoom string
  | RequestSync string
  | AddToQueue string jsval
  | PlayerState string jsval jsval jsval jsval
  | RequestNext string
  | SkipSong string
  | ClearQueue string
  | RemoveFromQueue string jsval
  | PlaySpecific string jsval
  | TogglePlay string
  | SetVolume string jsval
  | Disconnect

text \<open>
  The parameter: what the language does with the objects that are not rooms once
  \<^verbatim>\<open>Object.prototype\<close> has a truthy \<^verbatim>\<open>currentSong\<close>. \<open>enter\<close> is given the slots of
  the eleven functions and the prototype at that moment and returns what is kept;
  \<open>react\<close> is given what is kept, the sender and the event, and returns the exception
  thrown, or what is kept next with the transport calls made. A handler has the table
  in one place only, the expression \<^verbatim>\<open>rooms[roomId]\<close>, and it assigns to the object
  found there or changes its queue: with an object that is not a room it cannot
  change a room, which is why \<open>react\<close> returns no table.
\<close>

record 'x runtime =
  enter :: "(string \<Rightarrow> slots) \<Rightarrow> object_prototype \<Rightarrow> 'x"
  react :: "'x \<Rightarrow> string \<Rightarrow> event \<Rightarrow> error + 'x \<times> effect list"

definition delegate :: "'x runtime \<Rightarrow> 'x state \<Rightarrow> 'x \<Rightarrow> string \<Rightarrow> event \<Rightarrow> 'x outcome" where
  "delegate js st x sid ev =
     (case react js x sid ev of
        Inl err \<Rightarrow> Inl err
      | Inr (x', out) \<Rightarrow> Inr (st\<lparr> beyond := Some x' \<rparr>, out))"

text \<open>
  \<open>assign_currentSong\<close> is \<^verbatim>\<open>obj.currentSong = v\<close>: it fills the slot of the object,
  and on the prototype it sets the prototype's \<^verbatim>\<open>currentSong\<close>; a truthy value there
  is where the parameter takes over.
\<close>

definition assign_currentSong :: "'x runtime \<Rightarrow> 'x state \<Rightarrow> inherited \<Rightarrow> jsval \<Rightarrow> 'x state" where
  "assign_currentSong js st obj v =
     (case obj of
        Prototype \<Rightarrow>
          (let p = (proto st)\<lparr> its_currentSong := Some v \<rparr>
           in if truthy v then st\<lparr> proto := p, beyond := Some (enter js (builtins st) p) \<rparr>
              else st\<lparr> proto := p \<rparr>)
      | _ \<Rightarrow> put_slots st obj ((slots_of st obj)\<lparr> own_currentSong := Some v \<rparr>))"

text \<open>
  Each handler takes the parameter, the state, the id of the sending socket and the
  payload.
\<close>

text \<open>\<^verbatim>\<open>generateRoomId\<close>: the decimal digits of the integer drawn, a number from
  100000 to 999999.\<close>

definition generateRoomId :: "nat \<Rightarrow> string" where
  "generateRoomId drawn = digits_of drawn"

definition on_create_room :: "'x state \<Rightarrow> string \<Rightarrow> nat \<Rightarrow> 'x outcome" where
  "on_create_room st sid drawn =
     (let roomId = generateRoomId drawn
      in Inr (put_room st roomId \<lparr> host = sid, queue = [], currentSong = JNull \<rparr>,
              [Join roomId, Emit ToSender ''room-created'' [JString roomId]]))"

definition on_join_room :: "'x runtime \<Rightarrow> 'x state \<Rightarrow> string \<Rightarrow> string \<Rightarrow> 'x outcome" where
  "on_join_room js st sid roomId =
     (case rooms_get st roomId of
        Room r \<Rightarrow>
          Inr (st, [Join roomId,
                    Emit ToSender ''room-joined''
                      [JObject [(''roomId'', JString roomId),
                                (''queue'', JArray (queue r)),
                                (''currentSong'', currentSong r)]]])
      | Inherited obj \<Rightarrow>
          Inr (st, [Join roomId,
                    Emit ToSender ''room-joined''
                      [JObject [(''roomId'', JString roomId),
                                (''queue'', queue_value (get_queue st obj)),
                                (''currentSong'', get_currentSong st obj)]]])
      | Beyond x \<Rightarrow> delegate js st x sid (JoinRoom roomId)
      | Missing \<Rightarrow> Inr (st, [Emit ToSender ''error'' [JString ''Room not found'']]))"

definition on_request_sync :: "'x runtime \<Rightarrow> 'x state \<Rightarrow> string \<Rightarrow> string \<Rightarrow> 'x outcome" where
  "on_request_sync js st sid roomId =
     (case rooms_get st roomId of
        Room r \<Rightarrow>
          Inr (st, [Emit ToSender ''full-sync''
                      [JObject [(''queue'', JArray (queue r)),
                                (''currentSong'', currentSong r)]]])
      | Inherited obj \<Rightarrow>
          Inr (st, [Emit ToSender ''full-sync''
                      [JObject [(''queue'', queue_value (get_queue st obj)),
                                (''currentSong'', get_currentSong st obj)]]])
      | Beyond x \<Rightarrow> delegate js st x sid (RequestSync roomId)
      | Missing \<Rightarrow> Inr (st, []))"

text \<open>On an inherited object that finds no queue \<^verbatim>\<open>rooms[roomId].queue\<close> is
  \<^verbatim>\<open>undefined\<close>, and the call of \<^verbatim>\<open>push\<close> on it throws.\<close>

definition on_add_to_queue ::
  "'x runtime \<Rightarrow> 'x state \<Rightarrow> string \<Rightarrow> string \<Rightarrow> jsval \<Rightarrow> 'x outcome" where
  "on_add_to_queue js st sid roomId song =
     (case rooms_get st roomId of
        Room r \<Rightarrow>
          Inr (put_room st roomId (r\<lparr> queue := queue r @ [song] \<rparr>),
               [Emit (IoTo roomId) ''queue-updated'' [JArray (queue r @ [song])]])
      | Inherited obj \<Rightarrow>
          (case get_queue st obj of
             None \<Rightarrow> Inl TypeError
           | Some q \<Rightarrow>
               Inr (change_queue st obj (q @ [song]),
                    [Emit (IoTo roomId) ''queue-updated'' [JArray (q @ [song])]]))
      | Beyond x \<Rightarrow> delegate js st x sid (AddToQueue roomId song)
      | Missing \<Rightarrow> Inr (st, []))"

definition on_player_state ::
  "'x runtime \<Rightarrow> 'x state \<Rightarrow> string \<Rightarrow> string \<Rightarrow> jsval \<Rightarrow> jsval \<Rightarrow> jsval \<Rightarrow> jsval \<Rightarrow> 'x outcome"
  where
  "on_player_state js st sid roomId isPlaying volume currentTime duration =
     (case rooms_get st roomId of
        Missing \<Rightarrow> Inr (st, [])
      | Beyond x \<Rightarrow>
          delegate js st x sid (PlayerState roomId isPlaying volume currentTime duration)
      | _ \<Rightarrow>
          Inr (st, [Emit (SocketTo (JString roomId)) ''player-state''
                      [JObject [(''isPlaying'', isPlaying), (''volume'', volume),
                                (''currentTime'', currentTime), (''duration'', duration)]]]))"

text \<open>The first test reads \<^verbatim>\<open>rooms[roomId].queue.length\<close>, which throws on an
  inherited object that finds no queue.\<close>

definition on_request_next :: "'x runtime \<Rightarrow> 'x state \<Rightarrow> string \<Rightarrow> string \<Rightarrow> 'x outcome" where
  "on_request_next js st sid roomId =
     (case rooms_get st roomId of
        Room r \<Rightarrow>
          (case queue r of
             x # rest \<Rightarrow>
               Inr (put_room st roomId (r\<lparr> queue := rest, currentSong := x \<rparr>),
                    [Emit (IoTo roomId) ''play-song'' [x],
                     Emit (IoTo roomId) ''queue-updated'' [JArray rest]])
           | [] \<Rightarrow>
               Inr (put_room st roomId (r\<lparr> currentSong := JNull \<rparr>),
                    [Emit (IoTo roomId) ''play-song'' [JNull]]))
      | Inherited obj \<Rightarrow>
          (case get_queue st obj of
             None \<Rightarrow> Inl TypeError
           | Some (x # rest) \<Rightarrow>
               Inr (assign_currentSong js (change_queue st obj rest) obj x,
                    [Emit (IoTo roomId) ''play-song'' [x],
                     Emit (IoTo roomId) ''queue-updated'' [JArray rest]])
           | Some [] \<Rightarrow>
               Inr (assign_currentSong js st obj JNull,
                    [Emit (IoTo roomId) ''play-song'' [JNull]]))
      | Beyond x \<Rightarrow> delegate js st x sid (RequestNext roomId)
      | Missing \<Rightarrow> Inr (st, []))"

text \<open>\<^verbatim>\<open>rooms[roomId].host\<close>, the argument of \<^verbatim>\<open>socket.to\<close> in the three handlers
  that address the host. No inherited object has a \<^verbatim>\<open>host\<close>.\<close>

definition host_of :: "'x found \<Rightarrow> jsval" where
  "host_of f = (case f of Room r \<Rightarrow> JString (host r) | _ \<Rightarrow> JUndefined)"

definition on_skip_song :: "'x runtime \<Rightarrow> 'x state \<Rightarrow> string \<Rightarrow> string \<Rightarrow> 'x outcome" where
  "on_skip_song js st sid roomId =
     (case rooms_get st roomId of
        Missing \<Rightarrow> Inr (st, [])
      | Beyond x \<Rightarrow> delegate js st x sid (SkipSong roomId)
      | f \<Rightarrow> Inr (st, [Emit (SocketTo (host_of f)) ''force-skip'' []]))"

text \<open>
  \<^verbatim>\<open>rooms[roomId].queue = []\<close> on an inherited object gives that object a queue of its
  own, and the handler goes on to emit it.
\<close>

definition on_clear_queue :: "'x runtime \<Rightarrow> 'x state \<Rightarrow> string \<Rightarrow> string \<Rightarrow> 'x outcome" where
  "on_clear_queue js st sid roomId =
     (case rooms_get st roomId of
        Room r \<Rightarrow>
          Inr (put_room st roomId (r\<lparr> queue := [] \<rparr>),
               [Emit (IoTo roomId) ''queue-updated'' [JArray []]])
      | Inherited obj \<Rightarrow>
          Inr (assign_queue st obj [], [Emit (IoTo roomId) ''queue-updated'' [JArray []]])
      | Beyond x \<Rightarrow> delegate js st x sid (ClearQueue roomId)
      | Missing \<Rightarrow> Inr (st, []))"

text \<open>\<^verbatim>\<open>queue.splice(idx, 1)\<close> for a position inside the array.\<close>

definition splice1 :: "nat \<Rightarrow> 'a list \<Rightarrow> 'a list" where
  "splice1 i q = take i q @ drop (Suc i) q"

text \<open>
  The guard of both index handlers,
  \<^verbatim>\<open>rooms[roomId] && idx >= 0 && idx < rooms[roomId].queue.length\<close>, evaluated left to
  right. It fails (\<open>Inr None\<close>) when nothing is found, when \<open>idx\<close> is \<^verbatim>\<open>NaN\<close> or
  negative, and when \<open>idx\<close> is not below the length of the queue; it throws when the
  length of the queue of an inherited object that finds no queue is read; it holds
  with the place found: a position in the queue of a room, or in the queue that an
  inherited object reads. Where the parameter has taken over and the name is not a
  room, the tests of \<open>idx\<close> against \<^verbatim>\<open>NaN\<close> and zero are as far as it is followed:
  whether something is found and how long its queue is are left to the parameter.
\<close>

datatype 'x place = InRoom room nat | InInherited inherited "jsval list" nat | InBeyond 'x

definition index_guard :: "'x state \<Rightarrow> string \<Rightarrow> int option \<Rightarrow> error + 'x place option" where
  "index_guard st roomId idx =
     (case rooms_get st roomId of
        Missing \<Rightarrow> Inr None
      | f \<Rightarrow>
          (case idx of
             None \<Rightarrow> Inr None
           | Some i \<Rightarrow>
               if 0 \<le> i then
                 (case f of
                    Room r \<Rightarrow>
                      if i < int (length (queue r)) then Inr (Some (InRoom r (nat i)))
                      else Inr None
                  | Inherited obj \<Rightarrow>
                      (case get_queue st obj of
                         None \<Rightarrow> Inl TypeError
                       | Some q \<Rightarrow>
                           if i < int (length q) then Inr (Some (InInherited obj q (nat i)))
                           else Inr None)
                  | Beyond x \<Rightarrow> Inr (Some (InBeyond x))
                  | Missing \<Rightarrow> Inr None)
               else Inr None))"

definition on_remove_from_queue ::
  "'x runtime \<Rightarrow> 'x state \<Rightarrow> string \<Rightarrow> string \<Rightarrow> jsval \<Rightarrow> 'x outcome" where
  "on_remove_from_queue js st sid roomId index =
     (case parseInt index of
        Inl err \<Rightarrow> Inl err
      | Inr idx \<Rightarrow>
          (case index_guard st roomId idx of
             Inl err \<Rightarrow> Inl err
           | Inr None \<Rightarrow> Inr (st, [])
           | Inr (Some (InRoom r i)) \<Rightarrow>
               Inr (put_room st roomId (r\<lparr> queue := splice1 i (queue r) \<rparr>),
                    [Emit (IoTo roomId) ''queue-updated'' [JArray (splice1 i (queue r))]])
           | Inr (Some (InInherited obj q i)) \<Rightarrow>
               Inr (change_queue st obj (splice1 i q),
                    [Emit (IoTo roomId) ''queue-updated'' [JArray (splice1 i q)]])
           | Inr (Some (InBeyond x)) \<Rightarrow>
               delegate js st x sid (RemoveFromQueue roomId index)))"

definition on_play_specific ::
  "'x runtime \<Rightarrow> 'x state \<Rightarrow> string \<Rightarrow> string \<Rightarrow> jsval \<Rightarrow> 'x outcome" where
  "on_play_specific js st sid roomId index =
     (case parseInt index of
        Inl err \<Rightarrow> Inl err
      | Inr idx \<Rightarrow>
          (case index_guard st roomId idx of
             Inl err \<Rightarrow> Inl err
           | Inr None \<Rightarrow> Inr (st, [])
           | Inr (Some (InRoom r i)) \<Rightarrow>
               Inr (put_room st roomId
                      (r\<lparr> queue := splice1 i (queue r), currentSong := queue r ! i \<rparr>),
                    [Emit (IoTo roomId) ''play-song'' [queue r ! i],
                     Emit (IoTo roomId) ''queue-updated'' [JArray (splice1 i (queue r))]])
           | Inr (Some (InInherited obj q i)) \<Rightarrow>
               Inr (assign_currentSong js (change_queue st obj (splice1 i q)) obj (q ! i),
                    [Emit (IoTo roomId) ''play-song'' [q ! i],
                     Emit (IoTo roomId) ''queue-updated'' [JArray (splice1 i q)]])
           | Inr (Some (InBeyond x)) \<Rightarrow>
               delegate js st x sid (PlaySpecific roomId index)))"

definition on_toggle_play :: "'x runtime \<Rightarrow> 'x state \<Rightarrow> string \<Rightarrow> string \<Rightarrow> 'x outcome" where
  "on_toggle_play js st sid roomId =
     (case rooms_get st roomId of
        Missing \<Rightarrow> Inr (st, [])
      | Beyond x \<Rightarrow> delegate js st x sid (TogglePlay roomId)
      | f \<Rightarrow> Inr (st, [Emit (SocketTo (host_of f)) ''toggle-play'' []]))"

definition on_set_volume ::
  "'x runtime \<Rightarrow> 'x state \<Rightarrow> string \<Rightarrow> string \<Rightarrow> jsval \<Rightarrow> 'x outcome" where
  "on_set_volume js st sid roomId volume =
     (case rooms_get st roomId of
        Missing \<Rightarrow> Inr (st, [])
      | Beyond x \<Rightarrow> delegate js st x sid (SetVolume roomId volume)
      | f \<Rightarrow> Inr (st, [Emit (SocketTo (host_of f)) ''set-volume'' [volume]]))"

definition on_disconnect :: "'x state \<Rightarrow> string \<Rightarrow> 'x outcome" where
  "on_disconnect st sid = Inr (st, [])"

text \<open>The dispatch \<^verbatim>\<open>socket.on(name, handler)\<close> sets up.\<close>

fun handle :: "'x runtime \<Rightarrow> 'x state \<Rightarrow> string \<Rightarrow> event \<Rightarrow> 'x outcome" where
  "handle js st sid (CreateRoom drawn) = on_create_room st sid drawn"
| "handle js st sid (JoinRoom roomId) = on_join_room js st sid roomId"
| "handle js st sid (RequestSync roomId) = on_request_sync js st sid roomId"
| "handle js st sid (AddToQueue roomId song) = on_add_to_queue js st sid roomId song"
| "handle js st sid (PlayerState roomId isPlaying volume currentTime duration) =
     on_player_state js st sid roomId isPlaying volume currentTime duration"
| "handle js st sid (RequestNext roomId) = on_request_next js st sid roomId"
| "handle js st sid (SkipSong roomId) = on_skip_song js st sid roomId"
| "handle js st sid (ClearQueue roomId) = on_clear_queue js st sid roomId"
| "handle js st sid (RemoveFromQueue roomId index) = on_remove_from_queue js st sid roomId index"
| "handle js st sid (PlaySpecific roomId index) = on_play_specific js st sid roomId index"
| "handle js st sid (TogglePlay roomId) = on_toggle_play js st sid roomId"
| "handle js st sid (SetVolume roomId volume) = on_set_volume js st sid roomId volume"
| "handle js st sid Disconnect = on_disconnect st sid"

text \<open>
  Events are handled one at a time, in the order received. An exception in a handler is
  not caught anywhere in the program, so a run ends at the first one.
\<close>

fun run :: "'x runtime \<Rightarrow> 'x state \<Rightarrow> (string \<times> event) list \<Rightarrow> 'x outcome" where
  "run js st [] = Inr (st, [])"
| "run js st ((sid, ev) # evs) =
     (case handle js st sid ev of
        Inl err \<Rightarrow> Inl err
      | Inr (st', out) \<Rightarrow>
          (case run js st' evs of
             Inl err \<Rightarrow> Inl err
           | Inr (st'', out') \<Rightarrow> Inr (st'', out @ out')))"

section \<open>Observations on runs\<close>

text \<open>A batch of \<^verbatim>\<open>add-to-queue\<close> events and a batch of \<^verbatim>\<open>request-next\<close> events
  for one room, each with the socket that sends it.\<close>

definition adds :: "string \<Rightarrow> (string \<times> jsval) list \<Rightarrow> (string \<times> event) list" where
  "adds r xs = map (\<lambda>(sid, song). (sid, AddToQueue r song)) xs"

definition nexts :: "string \<Rightarrow> string list \<Rightarrow> (string \<times> event) list" where
  "nexts r sids = map (\<lambda>sid. (sid, RequestNext r)) sids"

text \<open>The payloads of the \<^verbatim>\<open>play-song\<close> events among the transport calls, in order.\<close>

fun played :: "effect list \<Rightarrow> jsval list" where
  "played [] = []"
| "played (Emit t name args # out) =
     (if name = ''play-song'' then args @ played out else played out)"
| "played (Join r # out) = played out"

definition observe :: "'x outcome \<Rightarrow> error + 'x state \<times> jsval list" where
  "observe res = (case res of Inl err \<Rightarrow> Inl err | Inr (st, out) \<Rightarrow> Inr (st, played out))"

text \<open>
  The states a run passes through: the state before each event, and the state after the
  last one handled. The list ends where the run ends, at a throw or after the last
  event.
\<close>

fun trace :: "'x runtime \<Rightarrow> 'x state \<Rightarrow> (string \<times> event) list \<Rightarrow> 'x state list" where
  "trace js st [] = [st]"
| "trace js st ((sid, ev) # evs) =
     st # (case handle js st sid ev of Inl err \<Rightarrow> [] | Inr (st', out) \<Rightarrow> trace js st' evs)"

text \<open>Where the \<^verbatim>\<open>currentSong\<close> of room \<open>k\<close> can come from in one step: it is
  \<^verbatim>\<open>null\<close>, or what it was before the step, or an element of the room's queue before
  the step.\<close>

definition song_source :: "'x state \<Rightarrow> string \<Rightarrow> jsval \<Rightarrow> bool" where
  "song_source st k v =
     (v = JNull
      \<or> (case rooms st k of
            Some room \<Rightarrow> v = currentSong room \<or> v \<in> set (queue room)
          | None \<Rightarrow> False))"

text \<open>
  Samples: a room with an empty queue, and the same room holding two and three songs;
  a run from the initial state in which events for inherited names come between the
  events for the room.
\<close>

definition sample_room :: room where
  "sample_room = \<lparr> host = ''h1'', queue = [], currentSong = JNull \<rparr>"

definition sample_empty :: "'x state" where
  "sample_empty = put_room init ''123456'' sample_room"

definition sample_two :: "'x state" where
  "sample_two =
     put_room init ''123456'' (sample_room\<lparr> queue := [JString ''A'', JString ''B''] \<rparr>)"

definition sample_three :: "'x state" where
  "sample_three =
     put_room init ''123456''
       (sample_room\<lparr> queue := [JString ''A'', JString ''B'', JString ''C''] \<rparr>)"

definition sample_events :: "(string \<times> event) list" where
  "sample_events =
     [(''h1'', CreateRoom 123456),
      (''s2'', ClearQueue ''__proto__''),
      (''s2'', AddToQueue ''123456'' (JString ''A'')),
      (''s2'', AddToQueue ''constructor'' (JString ''Z'')),
      (''s2'', RequestNext ''__proto__''),
      (''h1'', RequestNext ''123456'')]"

section \<open>Reading an index the way the claims do\<close>

text \<open>
  The mathematical reading of a number \<open>Dec neg m e\<close>, that is \<open>\<plusminus> m \<times> 10\<^sup>e\<close>, in natural
  number arithmetic: its integer part, whether it is an integer, whether its magnitude
  is at least \<open>10\<^sup>-\<^sup>6\<close> and below \<open>10\<^sup>2\<^sup>1\<close>, and whether it lies in \<open>[0, len)\<close>.
\<close>

definition trunc_nat :: "nat \<Rightarrow> int \<Rightarrow> nat" where
  "trunc_nat m e = (if 0 \<le> e then m * 10 ^ nat e else m div 10 ^ nat (- e))"

fun trunc_num :: "jsnum \<Rightarrow> int" where
  "trunc_num (Dec neg m e) = (if neg then - int (trunc_nat m e) else int (trunc_nat m e))"
| "trunc_num NaN = 0"
| "trunc_num (Infinity neg) = 0"

fun is_integer_num :: "jsnum \<Rightarrow> bool" where
  "is_integer_num (Dec neg m e) = (0 \<le> e \<or> 10 ^ nat (- e) dvd m)"
| "is_integer_num NaN = False"
| "is_integer_num (Infinity neg) = False"

fun plain_magnitude :: "jsnum \<Rightarrow> bool" where
  "plain_magnitude (Dec neg m e) =
     (10 ^ nat (- e) \<le> m * 10 ^ (6 + nat e) \<and> m * 10 ^ nat e < 10 ^ (21 + nat (- e)))"
| "plain_magnitude NaN = False"
| "plain_magnitude (Infinity neg) = False"

fun number_in_range :: "jsnum \<Rightarrow> nat \<Rightarrow> bool" where
  "number_in_range (Dec neg m e) len =
     ((m = 0 \<or> \<not> neg) \<and> m * 10 ^ nat e < len * 10 ^ nat (- e))"
| "number_in_range NaN len = False"
| "number_in_range (Infinity neg) len = False"

text \<open>A string with no leading numeric prefix: after the white space and an optional
  sign it is empty or starts with something that is not a decimal digit.\<close>

definition no_numeric_prefix :: "string \<Rightarrow> bool" where
  "no_numeric_prefix s =
     (let t = dropWhile is_white_space s;
          u = (if t \<noteq> [] \<and> (hd t = CHR ''+'' \<or> hd t = CHR ''-'') then tl t else t)
      in u = [] \<or> \<not> is_radix_digit 10 (hd u))"

text \<open>The two outcomes of the index handlers on an existing room: nothing happens, or
  position \<open>t\<close> of the queue is removed (and, for \<^verbatim>\<open>play-specific\<close>, becomes
  \<^verbatim>\<open>currentSong\<close>) and the room is told.\<close>

definition is_noop :: "'x runtime \<Rightarrow> 'x state \<Rightarrow> string \<Rightarrow> string \<Rightarrow> jsval \<Rightarrow> bool" where
  "is_noop js st sid r index =
     (handle js st sid (RemoveFromQueue r index) = Inr (st, [])
      \<and> handle js st sid (PlaySpecific r index) = Inr (st, []))"

definition acts_on_position ::
  "'x runtime \<Rightarrow> 'x state \<Rightarrow> string \<Rightarrow> string \<Rightarrow> jsval \<Rightarrow> room \<Rightarrow> nat \<Rightarrow> bool" where
  "acts_on_position js st sid r index room t =
     (handle js st sid (RemoveFromQueue r index) =
        Inr (put_room st r (room\<lparr> queue := splice1 t (queue room) \<rparr>),
             [Emit (IoTo r) ''queue-updated'' [JArray (splice1 t (queue room))]])
      \<and> handle js st sid (PlaySpecific r index) =
        Inr (put_room st r (room\<lparr> queue := splice1 t (queue room),
                                   currentSong := queue room ! t \<rparr>),
             [Emit (IoTo r) ''play-song'' [queue room ! t],
              Emit (IoTo r) ''queue-updated'' [JArray (splice1 t (queue room))]]))"

section \<open>The search endpoint\<close>

text \<open>
  \<^verbatim>\<open>GET /api/search\<close>. The provider \<^verbatim>\<open>yts\<close> is outside the program: it is a parameter
  that maps the query it is called with to the videos found, or to \<open>None\<close> when the
  call fails (the promise rejects or the result has no list of videos). A video is the
  provider's record; the handler reads five of its properties. The two query
  parameters are values: \<^verbatim>\<open>undefined\<close> when absent.
\<close>

record author =
  name :: jsval

record video =
  videoId :: jsval
  title :: jsval
  thumbnail :: jsval
  timestamp :: jsval
  author :: author

record response =
  status :: nat
  body :: jsval

text \<open>The item built for one video by the \<^verbatim>\<open>map\<close> callback.\<close>

definition song_of :: "video \<Rightarrow> jsval" where
  "song_of v =
     JObject [(''id'', videoId v), (''title'', title v), (''thumbnail'', thumbnail v),
              (''duration'', timestamp v), (''author'', name (author v))]"

text \<open>\<^verbatim>\<open>karaokeOnly ? `${query} karaoke` : query\<close>; the template converts the query to a
  string, which can throw.\<close>

definition searchQuery :: "jsval \<Rightarrow> bool \<Rightarrow> error + jsval" where
  "searchQuery query karaokeOnly =
     (if karaokeOnly then
        (case ToString query of
           Inl err \<Rightarrow> Inl err
         | Inr s \<Rightarrow> Inr (JString (s @ '' karaoke'')))
      else Inr query)"

text \<open>What is sent once the provider call is over: the \<^verbatim>\<open>catch\<close> branch on a
  failure, the first fifteen videos as items otherwise.\<close>

definition respond :: "video list option \<Rightarrow> response" where
  "respond searchResults =
     (case searchResults of
        None \<Rightarrow> \<lparr> status = 500, body = JObject [(''error'', JString ''Failed to search YouTube'')] \<rparr>
      | Some videos \<Rightarrow> \<lparr> status = 200, body = JArray (map song_of (take 15 videos)) \<rparr>)"

text \<open>The handler. Everything after the test of \<^verbatim>\<open>query\<close> is inside \<^verbatim>\<open>try\<close>, so a
  throw while building the query text ends in the \<^verbatim>\<open>catch\<close> branch as well.\<close>

definition api_search :: "(jsval \<Rightarrow> video list option) \<Rightarrow> jsval \<Rightarrow> jsval \<Rightarrow> response" where
  "api_search yts query karaokeOnlyParam =
     (let karaokeOnly = (karaokeOnlyParam \<noteq> JString ''false'')
      in if \<not> truthy query then
           \<lparr> status = 400, body = JObject [(''error'', JString ''Query is required'')] \<rparr>
         else
           (case searchQuery query karaokeOnly of
              Inl err \<Rightarrow> respond None
            | Inr q \<Rightarrow> respond (yts q)))"

text \<open>A sample provider that knows one query.\<close>

definition sample_video :: "string \<Rightarrow> video" where
  "sample_video i =
     \<lparr> videoId = JString i, title = JString ''t'', thumbnail = JString ''u'',
       timestamp = JString ''3:05'', author = \<lparr> name = JString ''a'' \<rparr> \<rparr>"

definition sample_yts :: "jsval \<Rightarrow> video list option" where
  "sample_yts q =
     (if q = JString ''abba karaoke'' then Some [sample_video ''v1'', sample_video ''v2'']
      else None)"

section \<open>Properties\<close>

subsection \<open>Reading and writing the state\<close>

lemma rooms_get_own [simp]: "rooms st r = Some room \<Longrightarrow> rooms_get st r = Room room"
  by (simp add: rooms_get_def)

lemma rooms_put_room [simp]: "rooms (put_room st k r) = (rooms st)(k \<mapsto> r)"
  by (simp add: put_room_def)

lemma builtins_put_room [simp]: "builtins (put_room st k r) = builtins st"
  by (simp add: put_room_def)

lemma put_room_twice [simp]: "put_room (put_room st k a) k b = put_room st k b"
  by (simp add: put_room_def)

lemma put_room_same: "rooms st k = Some r \<Longrightarrow> put_room st k r = st"
  by (simp add: put_room_def map_upd_triv)

lemma beyond_put_room [simp]: "beyond (put_room st k r) = beyond st"
  by (simp add: put_room_def)

lemma proto_put_room [simp]: "proto (put_room st k r) = proto st"
  by (simp add: put_room_def)

lemma rooms_put_slots [simp]: "rooms (put_slots st obj s) = rooms st"
  by (simp add: put_slots_def split: inherited.splits option.splits)

lemma beyond_put_slots [simp]: "beyond (put_slots st obj s) = beyond st"
  by (simp add: put_slots_def split: inherited.splits option.splits)

lemma rooms_put_prototype_array [simp]: "rooms (put_prototype_array st q) = rooms st"
  by (simp add: put_prototype_array_def split: option.splits)

lemma beyond_put_prototype_array [simp]: "beyond (put_prototype_array st q) = beyond st"
  by (simp add: put_prototype_array_def split: option.splits)

lemma rooms_assign_queue [simp]: "rooms (assign_queue st obj q) = rooms st"
  by (simp add: assign_queue_def split: inherited.splits)

lemma rooms_change_queue [simp]: "rooms (change_queue st obj q) = rooms st"
  by (simp add: change_queue_def split: option.splits)

lemma rooms_assign_currentSong [simp]: "rooms (assign_currentSong js st obj v) = rooms st"
  by (simp add: assign_currentSong_def Let_def split: inherited.splits)

lemma delegate_rooms: "delegate js st x sid ev = Inr (st', out) \<Longrightarrow> rooms st' = rooms st"
  by (auto simp: delegate_def split: sum.splits prod.splits)

lemma rooms_sample_empty [simp]: "rooms sample_empty ''123456'' = Some sample_room"
  by (simp add: sample_empty_def)

lemma rooms_sample_two [simp]:
  "rooms sample_two ''123456'' = Some (sample_room\<lparr> queue := [JString ''A'', JString ''B''] \<rparr>)"
  by (simp add: sample_two_def)

lemma rooms_sample_three [simp]:
  "rooms sample_three ''123456'' =
     Some (sample_room\<lparr> queue := [JString ''A'', JString ''B'', JString ''C''] \<rparr>)"
  by (simp add: sample_three_def)

subsection \<open>First in, first out\<close>

lemma played_append [simp]: "played (a @ b) = played a @ played b"
  by (induction a rule: played.induct) auto

lemma observe_run_Cons:
  "handle js st sid ev = Inr (st1, out1) \<Longrightarrow> observe (run js st1 evs) = Inr (st2, ps) \<Longrightarrow>
   observe (run js st ((sid, ev) # evs)) = Inr (st2, played out1 @ ps)"
  by (auto simp: observe_def split: sum.splits prod.splits)

lemma observe_run_append:
  "observe (run js st a) = Inr (st1, ps1) \<Longrightarrow> observe (run js st1 b) = Inr (st2, ps2) \<Longrightarrow>
   observe (run js st (a @ b)) = Inr (st2, ps1 @ ps2)"
proof (induction a arbitrary: st ps1)
  case Nil
  then show ?case by (auto simp: observe_def split: sum.splits prod.splits)
next
  case (Cons x a)
  obtain sid ev where x: "x = (sid, ev)" by (cases x)
  from Cons.prems(1) obtain st' out' where h: "handle js st sid ev = Inr (st', out')"
    by (auto simp: observe_def x split: sum.splits prod.splits)
  from Cons.prems(1) h obtain ps' where
    o: "observe (run js st' a) = Inr (st1, ps')" and p: "ps1 = played out' @ ps'"
    by (auto simp: observe_def x split: sum.splits prod.splits)
  from Cons.IH [OF o Cons.prems(2)] have "observe (run js st' (a @ b)) = Inr (st2, ps' @ ps2)" .
  from observe_run_Cons [OF h this] show ?case by (simp add: x p)
qed

lemma run_adds:
  "rooms st r = Some room \<Longrightarrow>
   observe (run js st (adds r xs)) =
     Inr (put_room st r (room\<lparr> queue := queue room @ map snd xs \<rparr>), [])"
proof (induction xs arbitrary: st room)
  case Nil
  then show ?case by (simp add: adds_def put_room_same observe_def)
next
  case (Cons x xs)
  obtain sid song where x: "x = (sid, song)" by (cases x)
  let ?room1 = "room\<lparr> queue := queue room @ [song] \<rparr>"
  let ?st1 = "put_room st r ?room1"
  have h: "handle js st sid (AddToQueue r song) =
             Inr (?st1, [Emit (IoTo r) ''queue-updated'' [JArray (queue room @ [song])]])"
    using Cons.prems by (simp add: on_add_to_queue_def)
  have r1: "rooms ?st1 r = Some ?room1" by simp
  have a: "adds r ((sid, song) # xs) = (sid, AddToQueue r song) # adds r xs"
    by (simp add: adds_def)
  from observe_run_Cons [OF h Cons.IH [OF r1]] show ?case
    unfolding x a by simp
qed

lemma run_nexts:
  "rooms st r = Some room \<Longrightarrow> length sids \<le> length (queue room) \<Longrightarrow> sids \<noteq> [] \<Longrightarrow>
   observe (run js st (nexts r sids)) =
     Inr (put_room st r
            (room\<lparr> queue := drop (length sids) (queue room),
                   currentSong := queue room ! (length sids - 1) \<rparr>),
          take (length sids) (queue room))"
proof (induction sids arbitrary: st room)
  case Nil
  then show ?case by simp
next
  case (Cons sid sids)
  then obtain x rest where q: "queue room = x # rest" by (cases "queue room") auto
  let ?room1 = "room\<lparr> queue := rest, currentSong := x \<rparr>"
  let ?st1 = "put_room st r ?room1"
  have h: "handle js st sid (RequestNext r) =
             Inr (?st1, [Emit (IoTo r) ''play-song'' [x],
                         Emit (IoTo r) ''queue-updated'' [JArray rest]])"
    using Cons.prems(1) q by (simp add: on_request_next_def)
  have r1: "rooms ?st1 r = Some ?room1" by simp
  have n: "nexts r (sid # sids) = (sid, RequestNext r) # nexts r sids"
    by (simp add: nexts_def)
  show ?case
  proof (cases "sids = []")
    case True
    have "observe (run js ?st1 []) = Inr (?st1, [])" by (simp add: observe_def)
    from observe_run_Cons [OF h this] show ?thesis using True q by (simp add: nexts_def)
  next
    case False
    have len: "length sids \<le> length (queue ?room1)" using Cons.prems(2) q by simp
    have "0 < length sids" using False by simp
    then have nth: "(x # rest) ! length sids = rest ! (length sids - 1)"
      by (cases "length sids") auto
    from observe_run_Cons [OF h Cons.IH [OF r1 len False]] show ?thesis
      using q nth by (simp add: n)
  qed
qed

lemma run_adds_nexts:
  assumes "rooms st r = Some room"
    and "items = queue room @ map snd xs"
    and "sids \<noteq> []" and "length sids \<le> length items"
  shows "observe (run js st (adds r xs @ nexts r sids)) =
           Inr (put_room st r
                  (room\<lparr> queue := drop (length sids) items,
                         currentSong := items ! (length sids - 1) \<rparr>),
                take (length sids) items)"
proof -
  let ?room1 = "room\<lparr> queue := items \<rparr>"
  let ?st1 = "put_room st r ?room1"
  have a: "observe (run js st (adds r xs)) = Inr (?st1, [])"
    using run_adds [OF assms(1), of js xs] assms(2) by simp
  have r1: "rooms ?st1 r = Some ?room1" by simp
  have len: "length sids \<le> length (queue ?room1)" using assms(4) by simp
  from observe_run_append [OF a run_nexts [OF r1 len assms(3)]] show ?thesis by simp
qed

text \<open>
  C1. Take a room with queue \<open>queue room\<close>, let any sockets add the songs \<open>map snd xs\<close>
  to it, and then let \<open>n \<ge> 1\<close> sockets send \<^verbatim>\<open>request-next\<close>, no more than there are
  items. The run does not throw; the \<open>n\<close> songs announced by \<^verbatim>\<open>play-song\<close> are the first
  \<open>n\<close> items in insertion order; afterwards the table holds, under the room's id, a
  room whose \<^verbatim>\<open>currentSong\<close> is the \<open>n\<close>-th item, whose queue is what follows that
  item, and whose host is as before; and every other room is as before.
\<close>

theorem fifo_order:
  assumes "rooms st r = Some room"
    and "items = queue room @ map snd xs"
    and "sids \<noteq> []" and "length sids \<le> length items"
  shows "\<exists>st' out room'.
           run js st (adds r xs @ nexts r sids) = Inr (st', out)
           \<and> played out = take (length sids) items
           \<and> rooms st' r = Some room'
           \<and> currentSong room' = items ! (length sids - 1)
           \<and> queue room' = drop (length sids) items
           \<and> host room' = host room
           \<and> (\<forall>k. k \<noteq> r \<longrightarrow> rooms st' k = rooms st k)"
proof -
  let ?room' = "room\<lparr> queue := drop (length sids) items,
                      currentSong := items ! (length sids - 1) \<rparr>"
  from run_adds_nexts [OF assms, of js] obtain out where
    "run js st (adds r xs @ nexts r sids) = Inr (put_room st r ?room', out)"
    and "played out = take (length sids) items"
    by (auto simp: observe_def split: sum.splits prod.splits)
  then have "run js st (adds r xs @ nexts r sids) = Inr (put_room st r ?room', out)
      \<and> played out = take (length sids) items
      \<and> rooms (put_room st r ?room') r = Some ?room'
      \<and> currentSong ?room' = items ! (length sids - 1)
      \<and> queue ?room' = drop (length sids) items
      \<and> host ?room' = host room
      \<and> (\<forall>k. k \<noteq> r \<longrightarrow> rooms (put_room st r ?room') k = rooms st k)"
    by simp
  then show ?thesis by blast
qed

theorem fifo_order_witness:
  "\<forall>js. \<exists>st' out room'.
     run js sample_empty
       (adds ''123456'' [(''s1'', JString ''A''), (''s2'', JString ''B''), (''s1'', JString ''C'')]
        @ nexts ''123456'' [''h1'', ''s2'']) = Inr (st', out)
     \<and> played out = [JString ''A'', JString ''B'']
     \<and> rooms st' ''123456'' = Some room'
     \<and> currentSong room' = JString ''B''
     \<and> queue room' = [JString ''C'']
     \<and> host room' = ''h1''"
proof
  fix js :: "'x runtime"
  from fifo_order [of sample_empty "''123456''" sample_room
      "[JString ''A'', JString ''B'', JString ''C'']"
      "[(''s1'', JString ''A''), (''s2'', JString ''B''), (''s1'', JString ''C'')]"
      "[''h1'', ''s2'']" js]
  obtain st' out room' where
    "run js sample_empty
       (adds ''123456'' [(''s1'', JString ''A''), (''s2'', JString ''B''), (''s1'', JString ''C'')]
        @ nexts ''123456'' [''h1'', ''s2'']) = Inr (st', out)
     \<and> played out = [JString ''A'', JString ''B'']
     \<and> rooms st' ''123456'' = Some room'
     \<and> currentSong room' = JString ''B''
     \<and> queue room' = [JString ''C'']
     \<and> host room' = ''h1''"
    by (auto simp: sample_room_def)
  then show "\<exists>st' out room'.
     run js sample_empty
       (adds ''123456'' [(''s1'', JString ''A''), (''s2'', JString ''B''), (''s1'', JString ''C'')]
        @ nexts ''123456'' [''h1'', ''s2'']) = Inr (st', out)
     \<and> played out = [JString ''A'', JString ''B'']
     \<and> rooms st' ''123456'' = Some room'
     \<and> currentSong room' = JString ''B''
     \<and> queue room' = [JString ''C'']
     \<and> host room' = ''h1''"
    by blast
qed

subsection \<open>request-next\<close>

text \<open>
  C2. For an existing room, \<^verbatim>\<open>request-next\<close> on an empty queue makes one transport
  call, \<^verbatim>\<open>play-song(null)\<close> to the room (so no \<^verbatim>\<open>queue-updated\<close>), and the table then
  holds the room with \<^verbatim>\<open>currentSong\<close> \<^verbatim>\<open>null\<close> and the queue still empty. On a queue
  with head \<open>x\<close> it emits \<^verbatim>\<open>play-song(x)\<close> and then \<^verbatim>\<open>queue-updated\<close> with the rest of
  the queue, both to the room, and the table then holds the room with \<^verbatim>\<open>currentSong\<close>
  \<open>x\<close> and the rest as its queue. In both cases the host and every other room are as
  before.
\<close>

theorem request_next_branches:
  assumes "rooms st r = Some room"
  shows "(queue room = [] \<longrightarrow>
            (\<exists>st' room'.
               handle js st sid (RequestNext r) =
                 Inr (st', [Emit (IoTo r) ''play-song'' [JNull]])
               \<and> rooms st' r = Some room'
               \<and> currentSong room' = JNull \<and> queue room' = [] \<and> host room' = host room
               \<and> (\<forall>k. k \<noteq> r \<longrightarrow> rooms st' k = rooms st k)))
       \<and> (\<forall>x rest. queue room = x # rest \<longrightarrow>
            (\<exists>st' room'.
               handle js st sid (RequestNext r) =
                 Inr (st', [Emit (IoTo r) ''play-song'' [x],
                            Emit (IoTo r) ''queue-updated'' [JArray rest]])
               \<and> rooms st' r = Some room'
               \<and> currentSong room' = x \<and> queue room' = rest \<and> host room' = host room
               \<and> (\<forall>k. k \<noteq> r \<longrightarrow> rooms st' k = rooms st k)))"
proof (intro conjI allI impI)
  assume q: "queue room = []"
  let ?room' = "room\<lparr> currentSong := JNull \<rparr>"
  have "handle js st sid (RequestNext r) =
          Inr (put_room st r ?room', [Emit (IoTo r) ''play-song'' [JNull]])
      \<and> rooms (put_room st r ?room') r = Some ?room'
      \<and> currentSong ?room' = JNull \<and> queue ?room' = [] \<and> host ?room' = host room
      \<and> (\<forall>k. k \<noteq> r \<longrightarrow> rooms (put_room st r ?room') k = rooms st k)"
    using assms q by (simp add: on_request_next_def)
  then show "\<exists>st' room'.
      handle js st sid (RequestNext r) = Inr (st', [Emit (IoTo r) ''play-song'' [JNull]])
      \<and> rooms st' r = Some room'
      \<and> currentSong room' = JNull \<and> queue room' = [] \<and> host room' = host room
      \<and> (\<forall>k. k \<noteq> r \<longrightarrow> rooms st' k = rooms st k)"
    by blast
next
  fix x rest
  assume q: "queue room = x # rest"
  let ?room' = "room\<lparr> queue := rest, currentSong := x \<rparr>"
  have "handle js st sid (RequestNext r) =
          Inr (put_room st r ?room',
               [Emit (IoTo r) ''play-song'' [x], Emit (IoTo r) ''queue-updated'' [JArray rest]])
      \<and> rooms (put_room st r ?room') r = Some ?room'
      \<and> currentSong ?room' = x \<and> queue ?room' = rest \<and> host ?room' = host room
      \<and> (\<forall>k. k \<noteq> r \<longrightarrow> rooms (put_room st r ?room') k = rooms st k)"
    using assms q by (simp add: on_request_next_def)
  then show "\<exists>st' room'.
      handle js st sid (RequestNext r) =
        Inr (st', [Emit (IoTo r) ''play-song'' [x], Emit (IoTo r) ''queue-updated'' [JArray rest]])
      \<and> rooms st' r = Some room'
      \<and> currentSong room' = x \<and> queue room' = rest \<and> host room' = host room
      \<and> (\<forall>k. k \<noteq> r \<longrightarrow> rooms st' k = rooms st k)"
    by blast
qed

theorem request_next_branches_witness:
  "\<forall>js.
     (\<exists>st' room'.
        handle js sample_empty ''s1'' (RequestNext ''123456'') =
          Inr (st', [Emit (IoTo ''123456'') ''play-song'' [JNull]])
        \<and> rooms st' ''123456'' = Some room'
        \<and> currentSong room' = JNull \<and> queue room' = [] \<and> host room' = ''h1'')
     \<and> (\<exists>st' room'.
        handle js sample_two ''s1'' (RequestNext ''123456'') =
          Inr (st', [Emit (IoTo ''123456'') ''play-song'' [JString ''A''],
                     Emit (IoTo ''123456'') ''queue-updated'' [JArray [JString ''B'']]])
        \<and> rooms st' ''123456'' = Some room'
        \<and> currentSong room' = JString ''A'' \<and> queue room' = [JString ''B'']
        \<and> host room' = ''h1'')"
proof (intro allI conjI)
  fix js :: "'x runtime"
  show "\<exists>st' room'.
      handle js sample_empty ''s1'' (RequestNext ''123456'') =
        Inr (st', [Emit (IoTo ''123456'') ''play-song'' [JNull]])
      \<and> rooms st' ''123456'' = Some room'
      \<and> currentSong room' = JNull \<and> queue room' = [] \<and> host room' = ''h1''"
    using request_next_branches [of sample_empty "''123456''" sample_room js "''s1''"]
    by (auto simp: sample_room_def)
  show "\<exists>st' room'.
      handle js sample_two ''s1'' (RequestNext ''123456'') =
        Inr (st', [Emit (IoTo ''123456'') ''play-song'' [JString ''A''],
                   Emit (IoTo ''123456'') ''queue-updated'' [JArray [JString ''B'']]])
      \<and> rooms st' ''123456'' = Some room'
      \<and> currentSong room' = JString ''A'' \<and> queue room' = [JString ''B'']
      \<and> host room' = ''h1''"
    using request_next_branches [of sample_two "''123456''"
        "sample_room\<lparr> queue := [JString ''A'', JString ''B''] \<rparr>" js "''s1''"]
    by (auto simp: sample_room_def)
qed

subsection \<open>clear-queue\<close>

text \<open>
  C4. For an existing room, \<^verbatim>\<open>clear-queue\<close> emits \<^verbatim>\<open>queue-updated\<close> with the empty
  queue to the room and nothing else, and the table then holds, under the room's id,
  a room with an empty queue and with the \<^verbatim>\<open>currentSong\<close> and the host it had before;
  every other room is as before.
\<close>

theorem clear_queue_frame:
  assumes "rooms st r = Some room"
  shows "\<exists>st' room'.
           handle js st sid (ClearQueue r) =
             Inr (st', [Emit (IoTo r) ''queue-updated'' [JArray []]])
           \<and> rooms st' r = Some room'
           \<and> queue room' = []
           \<and> currentSong room' = currentSong room
           \<and> host room' = host room
           \<and> (\<forall>k. k \<noteq> r \<longrightarrow> rooms st' k = rooms st k)"
proof -
  let ?room' = "room\<lparr> queue := [] \<rparr>"
  have "handle js st sid (ClearQueue r) =
          Inr (put_room st r ?room', [Emit (IoTo r) ''queue-updated'' [JArray []]])
      \<and> rooms (put_room st r ?room') r = Some ?room'
      \<and> queue ?room' = []
      \<and> currentSong ?room' = currentSong room
      \<and> host ?room' = host room
      \<and> (\<forall>k. k \<noteq> r \<longrightarrow> rooms (put_room st r ?room') k = rooms st k)"
    using assms by (simp add: on_clear_queue_def)
  then show ?thesis by blast
qed

theorem clear_queue_frame_witness:
  "\<forall>js. \<exists>st' room'.
     handle js
       (put_room sample_two ''123456''
          (sample_room\<lparr> queue := [JString ''B''], currentSong := JString ''A'' \<rparr>))
       ''s2'' (ClearQueue ''123456'') =
       Inr (st', [Emit (IoTo ''123456'') ''queue-updated'' [JArray []]])
     \<and> rooms st' ''123456'' = Some room'
     \<and> queue room' = []
     \<and> currentSong room' = JString ''A''
     \<and> host room' = ''h1''"
proof
  fix js :: "'x runtime"
  show "\<exists>st' room'.
     handle js
       (put_room sample_two ''123456''
          (sample_room\<lparr> queue := [JString ''B''], currentSong := JString ''A'' \<rparr>))
       ''s2'' (ClearQueue ''123456'') =
       Inr (st', [Emit (IoTo ''123456'') ''queue-updated'' [JArray []]])
     \<and> rooms st' ''123456'' = Some room'
     \<and> queue room' = []
     \<and> currentSong room' = JString ''A''
     \<and> host room' = ''h1''"
    using clear_queue_frame [of
        "put_room sample_two ''123456''
           (sample_room\<lparr> queue := [JString ''B''], currentSong := JString ''A'' \<rparr>)"
        "''123456''"
        "sample_room\<lparr> queue := [JString ''B''], currentSong := JString ''A'' \<rparr>"
        js "''s2''"]
    by (auto simp: sample_room_def)
qed

subsection \<open>Playback controls go to the host\<close>

text \<open>
  C5. For an existing room, \<^verbatim>\<open>skip-song\<close>, \<^verbatim>\<open>toggle-play\<close> and \<^verbatim>\<open>set-volume\<close> change
  no state and make one transport call each, \<^verbatim>\<open>socket.to(host)\<close>: an emit to the room
  named by the host's connection id, the sender excepted. With the host alone in that
  room, the host receives the event when another connection sent it, and nobody
  receives it when the host sent it; it is never an emit to the room.
\<close>

theorem host_only_controls:
  assumes "rooms st r = Some room" and "adapter (host room) = {host room}"
  shows "handle js st sid (SkipSong r) =
           Inr (st, [Emit (SocketTo (JString (host room))) ''force-skip'' []])
       \<and> handle js st sid (TogglePlay r) =
           Inr (st, [Emit (SocketTo (JString (host room))) ''toggle-play'' []])
       \<and> handle js st sid (SetVolume r volume) =
           Inr (st, [Emit (SocketTo (JString (host room))) ''set-volume'' [volume]])
       \<and> recipients adapter sid (SocketTo (JString (host room))) =
           (if sid = host room then {} else {host room})"
  using assms by (auto simp: on_skip_song_def on_toggle_play_def on_set_volume_def host_of_def)

theorem host_only_controls_witness:
  "\<forall>js.
     handle js sample_two ''s2'' (SkipSong ''123456'') =
       Inr (sample_two, [Emit (SocketTo (JString ''h1'')) ''force-skip'' []])
     \<and> handle js sample_two ''s2'' (TogglePlay ''123456'') =
       Inr (sample_two, [Emit (SocketTo (JString ''h1'')) ''toggle-play'' []])
     \<and> handle js sample_two ''s2'' (SetVolume ''123456'' (JNumber (Dec False 5 1))) =
       Inr (sample_two, [Emit (SocketTo (JString ''h1'')) ''set-volume'' [JNumber (Dec False 5 1)]])
     \<and> recipients ((\<lambda>r. {})(''h1'' := {''h1''}, ''s2'' := {''s2''}, ''123456'' := {''h1'', ''s2''}))
         ''s2'' (SocketTo (JString ''h1'')) = {''h1''}"
proof
  fix js :: "'x runtime"
  show "handle js sample_two ''s2'' (SkipSong ''123456'') =
       Inr (sample_two, [Emit (SocketTo (JString ''h1'')) ''force-skip'' []])
     \<and> handle js sample_two ''s2'' (TogglePlay ''123456'') =
       Inr (sample_two, [Emit (SocketTo (JString ''h1'')) ''toggle-play'' []])
     \<and> handle js sample_two ''s2'' (SetVolume ''123456'' (JNumber (Dec False 5 1))) =
       Inr (sample_two, [Emit (SocketTo (JString ''h1'')) ''set-volume'' [JNumber (Dec False 5 1)]])
     \<and> recipients ((\<lambda>r. {})(''h1'' := {''h1''}, ''s2'' := {''s2''}, ''123456'' := {''h1'', ''s2''}))
         ''s2'' (SocketTo (JString ''h1'')) = {''h1''}"
    using host_only_controls [of sample_two "''123456''"
        "sample_room\<lparr> queue := [JString ''A'', JString ''B''] \<rparr>"
        "(\<lambda>r. {})(''h1'' := {''h1''}, ''s2'' := {''s2''}, ''123456'' := {''h1'', ''s2''})"
        js "''s2''" "JNumber (Dec False 5 1)"]
    by (simp add: sample_room_def)
qed

subsection \<open>Room ids that name no room\<close>

lemma names_simps [simp]:
  "''constructor'' \<in> set object_prototype_names" "''toString'' \<in> set object_prototype_names"
  "''valueOf'' \<in> set object_prototype_names" "''hasOwnProperty'' \<in> set object_prototype_names"
  "''__proto__'' \<in> set object_prototype_names"
  "''queue'' \<notin> set object_prototype_names" "''currentSong'' \<notin> set object_prototype_names"
  "''123456'' \<notin> set object_prototype_names"
  by (simp_all add: object_prototype_names_def)

lemma rooms_get_none:
  assumes "rooms st roomId = None" and "roomId \<notin> set object_prototype_names"
    and "(beyond st = None \<and> its_queue (proto st) = None)
      \<or> (roomId \<noteq> ''queue'' \<and> roomId \<noteq> ''currentSong'')"
  shows "rooms_get st roomId = Missing"
proof -
  have "roomId \<noteq> ''__proto__''" using assms(2) names_simps(5) by blast
  then show ?thesis using assms by (cases "beyond st") (auto simp: rooms_get_def)
qed

lemma rooms_get_function:
  "rooms st k = None \<Longrightarrow> beyond st = None \<Longrightarrow> k \<in> set object_prototype_names \<Longrightarrow>
   k \<noteq> ''__proto__'' \<Longrightarrow> rooms_get st k = Inherited (Function k)"
  by (simp add: rooms_get_def)

lemma rooms_get_prototype:
  "rooms st ''__proto__'' = None \<Longrightarrow> beyond st = None \<Longrightarrow>
   rooms_get st ''__proto__'' = Inherited Prototype"
  by (simp add: rooms_get_def)

lemma rooms_get_prototype_queue:
  "rooms st ''queue'' = None \<Longrightarrow> beyond st = None \<Longrightarrow> its_queue (proto st) = Some aq \<Longrightarrow>
   rooms_get st ''queue'' = Inherited PrototypeQueue"
  by (simp add: rooms_get_def)

lemma rooms_get_currentSong:
  "rooms st ''currentSong'' = None \<Longrightarrow> beyond st = None \<Longrightarrow>
   rooms_get st ''currentSong'' = Missing"
  by (simp add: rooms_get_def)

lemma rooms_get_beyond:
  "rooms st roomId = None \<Longrightarrow> beyond st = Some x \<Longrightarrow>
   roomId \<in> set object_prototype_names \<or> roomId = ''queue'' \<or> roomId = ''currentSong'' \<Longrightarrow>
   rooms_get st roomId = Beyond x"
  by (simp add: rooms_get_def)

lemma join_room_existing:
  "rooms st r = Some room \<Longrightarrow>
   handle js st sid (JoinRoom r) =
     Inr (st, [Join r,
               Emit ToSender ''room-joined''
                 [JObject [(''roomId'', JString r), (''queue'', JArray (queue room)),
                           (''currentSong'', currentSong room)]]])"
  by (simp add: on_join_room_def)

lemma join_room_not_found:
  "rooms st roomId = None \<Longrightarrow> roomId \<notin> set object_prototype_names \<Longrightarrow>
   (beyond st = None \<and> its_queue (proto st) = None)
     \<or> (roomId \<noteq> ''queue'' \<and> roomId \<noteq> ''currentSong'') \<Longrightarrow>
   handle js st sid (JoinRoom roomId) =
     Inr (st, [Emit ToSender ''error'' [JString ''Room not found'']])"
  by (simp add: on_join_room_def rooms_get_none)

lemma missing_room_no_effect:
  assumes "rooms st roomId = None" and "roomId \<notin> set object_prototype_names"
    and "(beyond st = None \<and> its_queue (proto st) = None)
      \<or> (roomId \<noteq> ''queue'' \<and> roomId \<noteq> ''currentSong'')"
  shows "handle js st sid (RequestSync roomId) = Inr (st, [])"
    and "handle js st sid (AddToQueue roomId song) = Inr (st, [])"
    and "handle js st sid (PlayerState roomId a b c d) = Inr (st, [])"
    and "handle js st sid (RequestNext roomId) = Inr (st, [])"
    and "handle js st sid (SkipSong roomId) = Inr (st, [])"
    and "handle js st sid (ClearQueue roomId) = Inr (st, [])"
    and "handle js st sid (TogglePlay roomId) = Inr (st, [])"
    and "handle js st sid (SetVolume roomId volume) = Inr (st, [])"
    and "parseInt index = Inr idx \<Longrightarrow> handle js st sid (RemoveFromQueue roomId index) = Inr (st, [])"
    and "parseInt index = Inr idx \<Longrightarrow> handle js st sid (PlaySpecific roomId index) = Inr (st, [])"
  using rooms_get_none [OF assms]
  by (simp_all add: on_request_sync_def on_add_to_queue_def on_player_state_def
      on_request_next_def on_skip_song_def on_clear_queue_def on_toggle_play_def
      on_set_volume_def on_remove_from_queue_def on_play_specific_def index_guard_def)

text \<open>
  The index handlers call \<^verbatim>\<open>parseInt(index)\<close> before they look at the room: an
  index that is an object with a \<^verbatim>\<open>toString\<close> property of its own makes them throw
  whatever the room id.
\<close>

lemma object_index_throws:
  "handle js st sid (RemoveFromQueue roomId (JObject [(''toString'', JNull)])) = Inl TypeError"
  "handle js st sid (PlaySpecific roomId (JObject [(''toString'', JNull)])) = Inl TypeError"
  by (simp_all add: on_remove_from_queue_def on_play_specific_def parseInt_def)

lemma init_fields [simp]:
  "rooms init = Map.empty" "builtins init = (\<lambda>k. no_slots)"
  "proto init = \<lparr> its_queue = None, its_currentSong = None \<rparr>" "beyond init = None"
  by (simp_all add: init_def)

text \<open>
  C6. \<^verbatim>\<open>join-room\<close> with a room id that names no room must answer the sender with
  \<^verbatim>\<open>error("Room not found")\<close>. The handler tests \<^verbatim>\<open>rooms[roomId]\<close>, which is also
  truthy for a name inherited from \<^verbatim>\<open>Object.prototype\<close>: in the initial state, where
  there is no room at all, \<^verbatim>\<open>join-room("constructor")\<close> joins the sender to a group of
  that name and answers \<^verbatim>\<open>room-joined\<close> with an undefined queue and song.
\<close>

theorem join_room_inherited_name:
  "rooms init ''constructor'' = None
   \<and> handle js init ''s1'' (JoinRoom ''constructor'') =
       Inr (init, [Join ''constructor'',
                   Emit ToSender ''room-joined''
                     [JObject [(''roomId'', JString ''constructor''),
                               (''queue'', JUndefined),
                               (''currentSong'', JUndefined)]]])"
  by (simp add: on_join_room_def rooms_get_def get_queue_def get_currentSong_def
      slots_of_def no_slots_def prototype_array_def prototype_song_def queue_value_def)

text \<open>
  C7. A handler given a room id that names no room must not throw. In the initial
  state \<^verbatim>\<open>add-to-queue\<close> for the id \<^verbatim>\<open>constructor\<close> passes the test \<^verbatim>\<open>rooms[roomId]\<close>
  with the inherited function, reads its \<^verbatim>\<open>queue\<close> (undefined) and throws on
  \<^verbatim>\<open>push\<close>.
\<close>

theorem add_to_queue_inherited_name_throws:
  "rooms init ''constructor'' = None
   \<and> handle js init ''s1'' (AddToQueue ''constructor'' (JObject [(''title'', JString ''A'')])) =
       Inl TypeError"
  by (simp add: on_add_to_queue_def rooms_get_def get_queue_def slots_of_def no_slots_def
      prototype_array_def)

subsection \<open>Handlers on an inherited object\<close>

text \<open>What the handlers do with an inherited object, in terms of what they read from
  it and write to it.\<close>

lemma inherited_reads:
  assumes "rooms_get st k = Inherited obj"
  shows "handle js st sid (JoinRoom k) =
           Inr (st, [Join k,
                     Emit ToSender ''room-joined''
                       [JObject [(''roomId'', JString k),
                                 (''queue'', queue_value (get_queue st obj)),
                                 (''currentSong'', get_currentSong st obj)]]])"
    and "handle js st sid (RequestSync k) =
           Inr (st, [Emit ToSender ''full-sync''
                       [JObject [(''queue'', queue_value (get_queue st obj)),
                                 (''currentSong'', get_currentSong st obj)]]])"
    and "handle js st sid (PlayerState k a b c d) =
           Inr (st, [Emit (SocketTo (JString k)) ''player-state''
                       [JObject [(''isPlaying'', a), (''volume'', b),
                                 (''currentTime'', c), (''duration'', d)]]])"
    and "handle js st sid (SkipSong k) = Inr (st, [Emit (SocketTo JUndefined) ''force-skip'' []])"
    and "handle js st sid (TogglePlay k) = Inr (st, [Emit (SocketTo JUndefined) ''toggle-play'' []])"
    and "handle js st sid (SetVolume k volume) =
           Inr (st, [Emit (SocketTo JUndefined) ''set-volume'' [volume]])"
    and "handle js st sid (ClearQueue k) =
           Inr (assign_queue st obj [], [Emit (IoTo k) ''queue-updated'' [JArray []]])"
  using assms
  by (simp_all add: on_join_room_def on_request_sync_def on_player_state_def on_skip_song_def
      on_toggle_play_def on_set_volume_def on_clear_queue_def host_of_def)

lemma inherited_without_queue:
  assumes "rooms_get st k = Inherited obj" and "get_queue st obj = None"
  shows "handle js st sid (AddToQueue k song) = Inl TypeError"
    and "handle js st sid (RequestNext k) = Inl TypeError"
    and "parseInt index = Inr (Some i) \<Longrightarrow> 0 \<le> i \<Longrightarrow>
         handle js st sid (RemoveFromQueue k index) = Inl TypeError"
    and "parseInt index = Inr (Some i) \<Longrightarrow> 0 \<le> i \<Longrightarrow>
         handle js st sid (PlaySpecific k index) = Inl TypeError"
    and "parseInt index = Inr (Some i) \<Longrightarrow> i < 0 \<Longrightarrow>
         handle js st sid (RemoveFromQueue k index) = Inr (st, [])"
    and "parseInt index = Inr (Some i) \<Longrightarrow> i < 0 \<Longrightarrow>
         handle js st sid (PlaySpecific k index) = Inr (st, [])"
  using assms
  by (simp_all add: on_add_to_queue_def on_request_next_def on_remove_from_queue_def
      on_play_specific_def index_guard_def)

lemma inherited_with_queue:
  assumes "rooms_get st k = Inherited obj" and "get_queue st obj = Some q"
  shows "handle js st sid (AddToQueue k song) =
           Inr (change_queue st obj (q @ [song]),
                [Emit (IoTo k) ''queue-updated'' [JArray (q @ [song])]])"
    and "q = [] \<Longrightarrow>
         handle js st sid (RequestNext k) =
           Inr (assign_currentSong js st obj JNull, [Emit (IoTo k) ''play-song'' [JNull]])"
    and "q = x # rest \<Longrightarrow>
         handle js st sid (RequestNext k) =
           Inr (assign_currentSong js (change_queue st obj rest) obj x,
                [Emit (IoTo k) ''play-song'' [x],
                 Emit (IoTo k) ''queue-updated'' [JArray rest]])"
    and "parseInt index = Inr (Some (int t)) \<Longrightarrow> t < length q \<Longrightarrow>
         handle js st sid (RemoveFromQueue k index) =
           Inr (change_queue st obj (splice1 t q),
                [Emit (IoTo k) ''queue-updated'' [JArray (splice1 t q)]])"
    and "parseInt index = Inr (Some (int t)) \<Longrightarrow> t < length q \<Longrightarrow>
         handle js st sid (PlaySpecific k index) =
           Inr (assign_currentSong js (change_queue st obj (splice1 t q)) obj (q ! t),
                [Emit (IoTo k) ''play-song'' [q ! t],
                 Emit (IoTo k) ''queue-updated'' [JArray (splice1 t q)]])"
    and "parseInt index = Inr (Some i) \<Longrightarrow> int (length q) \<le> i \<Longrightarrow>
         handle js st sid (RemoveFromQueue k index) = Inr (st, [])"
    and "parseInt index = Inr (Some i) \<Longrightarrow> int (length q) \<le> i \<Longrightarrow>
         handle js st sid (PlaySpecific k index) = Inr (st, [])"
  using assms
  by (simp_all add: on_add_to_queue_def on_request_next_def on_remove_from_queue_def
      on_play_specific_def index_guard_def)

text \<open>What is read after a write: a property assigned is the property read, and the
  array that \<^verbatim>\<open>rooms[roomId].queue\<close> finds is the array the handlers change.\<close>

lemma get_queue_assign_queue:
  "obj = PrototypeQueue \<longrightarrow> its_queue (proto st) \<noteq> None \<Longrightarrow>
   get_queue (assign_queue st obj q) obj = Some q"
  by (cases obj)
     (auto simp: get_queue_def assign_queue_def slots_of_def put_slots_def prototype_array_def
        no_slots_def split: option.splits)

lemma get_queue_change_queue:
  "get_queue st obj = Some old \<Longrightarrow> get_queue (change_queue st obj q) obj = Some q"
  by (cases obj)
     (auto simp: get_queue_def change_queue_def slots_of_def put_slots_def prototype_array_def
        put_prototype_array_def no_slots_def split: option.splits)

lemma get_currentSong_assign_currentSong:
  "obj = PrototypeQueue \<longrightarrow> its_queue (proto st) \<noteq> None \<Longrightarrow>
   get_currentSong (assign_currentSong js st obj v) obj = v"
  by (cases obj)
     (auto simp: get_currentSong_def assign_currentSong_def slots_of_def put_slots_def
        prototype_song_def no_slots_def Let_def split: option.splits)

text \<open>
  \<^verbatim>\<open>clear-queue\<close> for an inherited name returns, and the program goes on with the
  object changed. A run on the name \<^verbatim>\<open>constructor\<close> from the initial state: the
  function is given a queue, three songs are added to it, the middle one is removed,
  the last one is played, the first one is requested, a connection joins.
\<close>

lemma parseInt_one: "parseInt (JString ''1'') = Inr (Some 1)"
  by code_simp

lemmas handlers =
  on_create_room_def on_join_room_def on_request_sync_def on_add_to_queue_def
  on_player_state_def on_request_next_def on_skip_song_def on_clear_queue_def
  on_remove_from_queue_def on_play_specific_def on_toggle_play_def on_set_volume_def
  on_disconnect_def index_guard_def host_of_def splice1_def

lemmas inherited_objects =
  rooms_get_def get_queue_def get_currentSong_def queue_value_def slots_of_def
  prototype_array_def prototype_song_def put_slots_def put_prototype_array_def
  assign_queue_def change_queue_def assign_currentSong_def no_slots_def

lemma inherited_run:
  "\<exists>st'.
     run js init
       [(''s1'', ClearQueue ''constructor''),
        (''s1'', AddToQueue ''constructor'' (JString ''A'')),
        (''s2'', AddToQueue ''constructor'' (JString ''B'')),
        (''s2'', AddToQueue ''constructor'' (JString ''C'')),
        (''s1'', RemoveFromQueue ''constructor'' (JString ''1'')),
        (''s1'', PlaySpecific ''constructor'' (JString ''1'')),
        (''s2'', RequestNext ''constructor''),
        (''s3'', SkipSong ''constructor''),
        (''s3'', JoinRoom ''constructor'')] =
     Inr (st',
          [Emit (IoTo ''constructor'') ''queue-updated'' [JArray []],
           Emit (IoTo ''constructor'') ''queue-updated'' [JArray [JString ''A'']],
           Emit (IoTo ''constructor'') ''queue-updated'' [JArray [JString ''A'', JString ''B'']],
           Emit (IoTo ''constructor'') ''queue-updated''
             [JArray [JString ''A'', JString ''B'', JString ''C'']],
           Emit (IoTo ''constructor'') ''queue-updated'' [JArray [JString ''A'', JString ''C'']],
           Emit (IoTo ''constructor'') ''play-song'' [JString ''C''],
           Emit (IoTo ''constructor'') ''queue-updated'' [JArray [JString ''A'']],
           Emit (IoTo ''constructor'') ''play-song'' [JString ''A''],
           Emit (IoTo ''constructor'') ''queue-updated'' [JArray []],
           Emit (SocketTo JUndefined) ''force-skip'' [],
           Join ''constructor'',
           Emit ToSender ''room-joined''
             [JObject [(''roomId'', JString ''constructor''),
                       (''queue'', JArray []),
                       (''currentSong'', JString ''A'')]]])
     \<and> rooms st' = Map.empty
     \<and> builtins st' ''constructor'' =
         \<lparr> own_queue = Some [], own_currentSong = Some (JString ''A'') \<rparr>
     \<and> proto st' = \<lparr> its_queue = None, its_currentSong = None \<rparr>
     \<and> beyond st' = None"
  by (simp add: handlers inherited_objects parseInt_one)

text \<open>
  A run that gives \<^verbatim>\<open>Object.prototype\<close> a queue. A song added under the name
  \<^verbatim>\<open>toString\<close> goes to that queue, which the function inherits; \<^verbatim>\<open>rooms["queue"]\<close>
  is the array, which reads itself as its queue until \<^verbatim>\<open>clear-queue("queue")\<close> gives
  it one of its own; \<^verbatim>\<open>request-next\<close> under the name \<^verbatim>\<open>valueOf\<close> takes the song from
  the prototype's queue and keeps it on the function; \<^verbatim>\<open>request-next("__proto__")\<close>
  then finds the queue empty and sets the prototype's \<^verbatim>\<open>currentSong\<close> to \<^verbatim>\<open>null\<close>,
  which is what \<^verbatim>\<open>hasOwnProperty\<close> reads as its own, and which leaves
  \<^verbatim>\<open>rooms["currentSong"]\<close> falsy.
\<close>

lemma prototype_run:
  "\<exists>st'.
     run js init
       [(''s1'', ClearQueue ''__proto__''),
        (''s1'', AddToQueue ''toString'' (JString ''A'')),
        (''s2'', JoinRoom ''queue''),
        (''s2'', ClearQueue ''queue''),
        (''s2'', AddToQueue ''queue'' (JString ''B'')),
        (''s2'', RequestSync ''queue''),
        (''s1'', RequestNext ''valueOf''),
        (''s3'', JoinRoom ''valueOf''),
        (''s1'', RequestNext ''__proto__''),
        (''s3'', JoinRoom ''currentSong''),
        (''s3'', JoinRoom ''hasOwnProperty'')] =
     Inr (st',
          [Emit (IoTo ''__proto__'') ''queue-updated'' [JArray []],
           Emit (IoTo ''toString'') ''queue-updated'' [JArray [JString ''A'']],
           Join ''queue'',
           Emit ToSender ''room-joined''
             [JObject [(''roomId'', JString ''queue''),
                       (''queue'', JArray [JString ''A'']),
                       (''currentSong'', JUndefined)]],
           Emit (IoTo ''queue'') ''queue-updated'' [JArray []],
           Emit (IoTo ''queue'') ''queue-updated'' [JArray [JString ''B'']],
           Emit ToSender ''full-sync''
             [JObject [(''queue'', JArray [JString ''B'']), (''currentSong'', JUndefined)]],
           Emit (IoTo ''valueOf'') ''play-song'' [JString ''A''],
           Emit (IoTo ''valueOf'') ''queue-updated'' [JArray []],
           Join ''valueOf'',
           Emit ToSender ''room-joined''
             [JObject [(''roomId'', JString ''valueOf''),
                       (''queue'', JArray []),
                       (''currentSong'', JString ''A'')]],
           Emit (IoTo ''__proto__'') ''play-song'' [JNull],
           Emit ToSender ''error'' [JString ''Room not found''],
           Join ''hasOwnProperty'',
           Emit ToSender ''room-joined''
             [JObject [(''roomId'', JString ''hasOwnProperty''),
                       (''queue'', JArray []),
                       (''currentSong'', JNull)]]])
     \<and> rooms st' = Map.empty
     \<and> builtins st' ''valueOf'' = \<lparr> own_queue = None, own_currentSong = Some (JString ''A'') \<rparr>
     \<and> proto st' =
         \<lparr> its_queue = Some ([], \<lparr> own_queue = Some [JString ''B''], own_currentSong = None \<rparr>),
           its_currentSong = Some JNull \<rparr>
     \<and> beyond st' = None"
  by (simp add: handlers inherited_objects)

text \<open>
  A run that stores a truthy value as the \<^verbatim>\<open>currentSong\<close> of \<^verbatim>\<open>Object.prototype\<close>:
  the handler that does it emits the song and the queue and returns, and the
  parameter is entered with the state of the inherited objects at that moment. From
  then on an event for a name that finds no room but an inherited object, \<^verbatim>\<open>queue\<close>
  and \<^verbatim>\<open>currentSong\<close> among the names, is answered by the parameter, except that the
  index handlers are no-ops on an index that \<^verbatim>\<open>parseInt\<close> reads as \<^verbatim>\<open>NaN\<close> or as a
  negative number, which they reject before they read anything of the object.
\<close>

lemma beyond_run:
  "\<exists>st'.
     run js init
       [(''s1'', ClearQueue ''__proto__''),
        (''s1'', AddToQueue ''__proto__'' (JString ''A'')),
        (''s1'', RequestNext ''__proto__'')] =
     Inr (st',
          [Emit (IoTo ''__proto__'') ''queue-updated'' [JArray []],
           Emit (IoTo ''__proto__'') ''queue-updated'' [JArray [JString ''A'']],
           Emit (IoTo ''__proto__'') ''play-song'' [JString ''A''],
           Emit (IoTo ''__proto__'') ''queue-updated'' [JArray []]])
     \<and> rooms st' = Map.empty
     \<and> proto st' = \<lparr> its_queue = Some ([], no_slots), its_currentSong = Some (JString ''A'') \<rparr>
     \<and> beyond st' =
         Some (enter js (\<lambda>k. no_slots)
                 \<lparr> its_queue = Some ([], no_slots), its_currentSong = Some (JString ''A'') \<rparr>)"
  by (simp add: handlers inherited_objects Let_def)

lemma delegate_throws: "react js x sid ev = Inl err \<Longrightarrow> delegate js st x sid ev = Inl err"
  by (simp add: delegate_def)

lemma delegate_returns:
  "react js x sid ev = Inr (x', out) \<Longrightarrow>
   delegate js st x sid ev = Inr (st\<lparr> beyond := Some x' \<rparr>, out)"
  by (simp add: delegate_def)

lemma beyond_delegates:
  assumes "rooms st k = None" and "beyond st = Some x"
    and "k \<in> set object_prototype_names \<or> k = ''queue'' \<or> k = ''currentSong''"
  shows "handle js st sid (JoinRoom k) = delegate js st x sid (JoinRoom k)"
    and "handle js st sid (RequestSync k) = delegate js st x sid (RequestSync k)"
    and "handle js st sid (AddToQueue k song) = delegate js st x sid (AddToQueue k song)"
    and "handle js st sid (PlayerState k a b c d) = delegate js st x sid (PlayerState k a b c d)"
    and "handle js st sid (RequestNext k) = delegate js st x sid (RequestNext k)"
    and "handle js st sid (SkipSong k) = delegate js st x sid (SkipSong k)"
    and "handle js st sid (ClearQueue k) = delegate js st x sid (ClearQueue k)"
    and "handle js st sid (TogglePlay k) = delegate js st x sid (TogglePlay k)"
    and "handle js st sid (SetVolume k volume) = delegate js st x sid (SetVolume k volume)"
    and "parseInt index = Inr (Some i) \<Longrightarrow> 0 \<le> i \<Longrightarrow>
         handle js st sid (RemoveFromQueue k index) =
           delegate js st x sid (RemoveFromQueue k index)"
    and "parseInt index = Inr (Some i) \<Longrightarrow> 0 \<le> i \<Longrightarrow>
         handle js st sid (PlaySpecific k index) = delegate js st x sid (PlaySpecific k index)"
    and "parseInt index = Inr (Some i) \<Longrightarrow> i < 0 \<Longrightarrow>
         handle js st sid (RemoveFromQueue k index) = Inr (st, [])"
    and "parseInt index = Inr (Some i) \<Longrightarrow> i < 0 \<Longrightarrow>
         handle js st sid (PlaySpecific k index) = Inr (st, [])"
  using rooms_get_beyond [OF assms]
  by (simp_all add: on_join_room_def on_request_sync_def on_add_to_queue_def
      on_player_state_def on_request_next_def on_skip_song_def on_clear_queue_def
      on_toggle_play_def on_set_volume_def on_remove_from_queue_def on_play_specific_def
      index_guard_def)

subsection \<open>Where currentSong comes from\<close>

lemma rooms_get_Room: "rooms_get st roomId = Room r \<longleftrightarrow> rooms st roomId = Some r"
  by (auto simp: rooms_get_def split: option.splits)

lemma index_guard_InRoom:
  "index_guard st roomId idx = Inr (Some (InRoom r i)) \<Longrightarrow>
   rooms st roomId = Some r \<and> i < length (queue r)"
  by (cases "rooms_get st roomId")
     (auto simp: index_guard_def rooms_get_Room split: option.splits if_splits)

lemma song_source_iff:
  "song_source st k v \<longleftrightarrow>
     v = JNull \<or> (\<exists>room. rooms st k = Some room \<and> (v = currentSong room \<or> v \<in> set (queue room)))"
  by (auto simp: song_source_def split: option.splits)

lemma step_same:
  "rooms st' = rooms st \<Longrightarrow> rooms st' k = Some room' \<Longrightarrow> song_source st k (currentSong room')"
  by (auto simp: song_source_iff)

lemma step_create:
  "on_create_room st sid drawn = Inr (st', out) \<Longrightarrow> rooms st' k = Some room' \<Longrightarrow>
   song_source st k (currentSong room')"
  by (auto simp: on_create_room_def song_source_iff Let_def split: if_splits)

lemma step_add:
  assumes "on_add_to_queue js st sid roomId song = Inr (st', out)"
    and "rooms st' k = Some room'"
  shows "song_source st k (currentSong room')"
proof (cases "rooms_get st roomId")
  case (Room r)
  then show ?thesis using assms
    by (auto simp: on_add_to_queue_def song_source_iff rooms_get_Room split: if_splits)
next
  case (Inherited obj)
  then have "rooms st' = rooms st" using assms(1)
    by (auto simp: on_add_to_queue_def split: option.splits)
  then show ?thesis using assms(2) by (rule step_same)
next
  case (Beyond x)
  then have "rooms st' = rooms st" using assms(1)
    by (auto simp: on_add_to_queue_def dest: delegate_rooms)
  then show ?thesis using assms(2) by (rule step_same)
next
  case Missing
  then have "rooms st' = rooms st" using assms(1) by (auto simp: on_add_to_queue_def)
  then show ?thesis using assms(2) by (rule step_same)
qed

lemma step_next:
  assumes "on_request_next js st sid roomId = Inr (st', out)"
    and "rooms st' k = Some room'"
  shows "song_source st k (currentSong room')"
proof (cases "rooms_get st roomId")
  case (Room r)
  then show ?thesis using assms
    by (auto simp: on_request_next_def song_source_iff rooms_get_Room
        split: list.splits if_splits)
next
  case (Inherited obj)
  then have "rooms st' = rooms st" using assms(1)
    by (auto simp: on_request_next_def split: option.splits list.splits)
  then show ?thesis using assms(2) by (rule step_same)
next
  case (Beyond x)
  then have "rooms st' = rooms st" using assms(1)
    by (auto simp: on_request_next_def dest: delegate_rooms)
  then show ?thesis using assms(2) by (rule step_same)
next
  case Missing
  then have "rooms st' = rooms st" using assms(1) by (auto simp: on_request_next_def)
  then show ?thesis using assms(2) by (rule step_same)
qed

lemma step_clear:
  assumes "on_clear_queue js st sid roomId = Inr (st', out)"
    and "rooms st' k = Some room'"
  shows "song_source st k (currentSong room')"
proof (cases "rooms_get st roomId")
  case (Room r)
  then show ?thesis using assms
    by (auto simp: on_clear_queue_def song_source_iff rooms_get_Room split: if_splits)
next
  case (Inherited obj)
  then have "rooms st' = rooms st" using assms(1)
    by (auto simp: on_clear_queue_def)
  then show ?thesis using assms(2) by (rule step_same)
next
  case (Beyond x)
  then have "rooms st' = rooms st" using assms(1)
    by (auto simp: on_clear_queue_def dest: delegate_rooms)
  then show ?thesis using assms(2) by (rule step_same)
next
  case Missing
  then have "rooms st' = rooms st" using assms(1) by (auto simp: on_clear_queue_def)
  then show ?thesis using assms(2) by (rule step_same)
qed

lemma step_remove:
  assumes "on_remove_from_queue js st sid roomId index = Inr (st', out)"
    and "rooms st' k = Some room'"
  shows "song_source st k (currentSong room')"
proof -
  from assms(1) obtain idx res where p: "parseInt index = Inr idx"
    and g: "index_guard st roomId idx = Inr res"
    by (auto simp: on_remove_from_queue_def split: sum.splits)
  show ?thesis
  proof (cases res)
    case None
    then have "rooms st' = rooms st" using assms(1) p g
      by (simp add: on_remove_from_queue_def)
    then show ?thesis using assms(2) by (rule step_same)
  next
    case (Some t)
    show ?thesis
    proof (cases t)
      case (InRoom r i)
      from index_guard_InRoom [of st roomId idx r i] g Some InRoom
      have f: "rooms st roomId = Some r" "i < length (queue r)" by auto
      have "st' = put_room st roomId (r\<lparr> queue := splice1 i (queue r) \<rparr>)"
        using assms(1) p g Some InRoom by (simp add: on_remove_from_queue_def)
      then show ?thesis using f assms(2)
        by (auto simp: song_source_iff split: if_splits)
    next
      case (InInherited n q i)
      then have "rooms st' = rooms st" using assms(1) p g Some
        by (auto simp: on_remove_from_queue_def)
      then show ?thesis using assms(2) by (rule step_same)
    next
      case (InBeyond x)
      then have "rooms st' = rooms st" using assms(1) p g Some
        by (auto simp: on_remove_from_queue_def dest: delegate_rooms)
      then show ?thesis using assms(2) by (rule step_same)
    qed
  qed
qed

lemma step_play:
  assumes "on_play_specific js st sid roomId index = Inr (st', out)"
    and "rooms st' k = Some room'"
  shows "song_source st k (currentSong room')"
proof -
  from assms(1) obtain idx res where p: "parseInt index = Inr idx"
    and g: "index_guard st roomId idx = Inr res"
    by (auto simp: on_play_specific_def split: sum.splits)
  show ?thesis
  proof (cases res)
    case None
    then have "rooms st' = rooms st" using assms(1) p g
      by (simp add: on_play_specific_def)
    then show ?thesis using assms(2) by (rule step_same)
  next
    case (Some t)
    show ?thesis
    proof (cases t)
      case (InRoom r i)
      from index_guard_InRoom [of st roomId idx r i] g Some InRoom
      have f: "rooms st roomId = Some r" "i < length (queue r)" by auto
      have "st' = put_room st roomId
          (r\<lparr> queue := splice1 i (queue r), currentSong := queue r ! i \<rparr>)"
        using assms(1) p g Some InRoom by (simp add: on_play_specific_def)
      then show ?thesis using f assms(2)
        by (auto simp: song_source_iff split: if_splits)
    next
      case (InInherited n q i)
      then have "rooms st' = rooms st" using assms(1) p g Some
        by (auto simp: on_play_specific_def)
      then show ?thesis using assms(2) by (rule step_same)
    next
      case (InBeyond x)
      then have "rooms st' = rooms st" using assms(1) p g Some
        by (auto simp: on_play_specific_def dest: delegate_rooms)
      then show ?thesis using assms(2) by (rule step_same)
    qed
  qed
qed

lemma step_read:
  assumes "handle js st sid ev = Inr (st', out)"
    and "ev = JoinRoom roomId \<or> ev = RequestSync roomId \<or> ev = PlayerState roomId a b c d
      \<or> ev = SkipSong roomId \<or> ev = TogglePlay roomId \<or> ev = SetVolume roomId volume"
  shows "rooms st' = rooms st"
  using assms
  by (cases "rooms_get st roomId")
     (auto simp: on_join_room_def on_request_sync_def on_player_state_def on_skip_song_def
        on_toggle_play_def on_set_volume_def dest: delegate_rooms)

lemma handle_song_source:
  assumes "handle js st sid ev = Inr (st', out)" and "rooms st' k = Some room'"
  shows "song_source st k (currentSong room')"
proof (cases ev)
  case (CreateRoom drawn)
  then show ?thesis using assms step_create by simp
next
  case (JoinRoom roomId)
  then have "rooms st' = rooms st" using step_read [OF assms(1)] by blast
  then show ?thesis using assms(2) by (rule step_same)
next
  case (RequestSync roomId)
  then have "rooms st' = rooms st" using step_read [OF assms(1)] by blast
  then show ?thesis using assms(2) by (rule step_same)
next
  case (AddToQueue roomId song)
  then show ?thesis using assms step_add by simp
next
  case (PlayerState roomId a b c d)
  then have "rooms st' = rooms st" using step_read [OF assms(1)] by blast
  then show ?thesis using assms(2) by (rule step_same)
next
  case (RequestNext roomId)
  then show ?thesis using assms step_next by simp
next
  case (SkipSong roomId)
  then have "rooms st' = rooms st" using step_read [OF assms(1)] by blast
  then show ?thesis using assms(2) by (rule step_same)
next
  case (ClearQueue roomId)
  then show ?thesis using assms step_clear by simp
next
  case (RemoveFromQueue roomId index)
  then show ?thesis using assms step_remove by simp
next
  case (PlaySpecific roomId index)
  then show ?thesis using assms step_play by simp
next
  case (TogglePlay roomId)
  then have "rooms st' = rooms st" using step_read [OF assms(1)] by blast
  then show ?thesis using assms(2) by (rule step_same)
next
  case (SetVolume roomId volume)
  then have "rooms st' = rooms st" using step_read [OF assms(1)] by blast
  then show ?thesis using assms(2) by (rule step_same)
next
  case Disconnect
  then have "rooms st' = rooms st" using assms(1) by (simp add: on_disconnect_def)
  then show ?thesis using assms(2) by (rule step_same)
qed

lemma trace_song:
  "i < length (trace js st0 evs) \<Longrightarrow> rooms (trace js st0 evs ! i) k = Some room \<Longrightarrow>
   currentSong room \<noteq> JNull \<Longrightarrow>
   (\<exists>j<i. \<exists>room'. rooms (trace js st0 evs ! j) k = Some room' \<and> currentSong room \<in> set (queue room'))
   \<or> (\<exists>room0. rooms st0 k = Some room0 \<and> currentSong room0 = currentSong room)"
proof (induction evs arbitrary: st0 i)
  case Nil
  then show ?case by simp
next
  case (Cons x evs)
  obtain sid ev where x: "x = (sid, ev)" by (cases x)
  show ?case
  proof (cases i)
    case 0
    then show ?thesis using Cons.prems by (simp add: x)
  next
    case (Suc i')
    show ?thesis
    proof (cases "handle js st0 sid ev")
      case (Inl err)
      then show ?thesis using Cons.prems Suc by (simp add: x)
    next
      case (Inr res)
      obtain st1 out where res: "res = (st1, out)" by (cases res)
      have tr: "trace js st0 (x # evs) = st0 # trace js st1 evs"
        using Inr res by (simp add: x)
      have i': "i' < length (trace js st1 evs)" using Cons.prems(1) tr Suc by simp
      have r': "rooms (trace js st1 evs ! i') k = Some room" using Cons.prems(2) tr Suc by simp
      from Cons.IH [OF i' r' Cons.prems(3)]
      consider (earlier) j room' where "j < i'" "rooms (trace js st1 evs ! j) k = Some room'"
          "currentSong room \<in> set (queue room')"
        | (first) room1 where "rooms st1 k = Some room1" "currentSong room1 = currentSong room"
        by blast
      then show ?thesis
      proof cases
        case earlier
        then have "Suc j < i \<and> rooms (trace js st0 (x # evs) ! Suc j) k = Some room'
            \<and> currentSong room \<in> set (queue room')"
          using tr Suc by simp
        then show ?thesis by blast
      next
        case first
        from handle_song_source [of js st0 sid ev st1 out k room1] Inr res first(1)
        have "song_source st0 k (currentSong room1)" by simp
        then obtain room0 where r0: "rooms st0 k = Some room0"
          and c: "currentSong room = currentSong room0 \<or> currentSong room \<in> set (queue room0)"
          using first(2) Cons.prems(3) by (auto simp: song_source_iff)
        from c show ?thesis
        proof
          assume "currentSong room = currentSong room0"
          then show ?thesis using r0 by simp
        next
          assume "currentSong room \<in> set (queue room0)"
          then have "0 < i \<and> rooms (trace js st0 (x # evs) ! 0) k = Some room0
              \<and> currentSong room \<in> set (queue room0)"
            using r0 Suc tr by simp
          then show ?thesis by blast
        qed
      qed
    qed
  qed
qed

text \<open>A run ends only at a throw: when no handler throws, there is a state for the
  start and one after every event.\<close>

lemma trace_length:
  "run js st evs = Inr (st', out) \<Longrightarrow> length (trace js st evs) = Suc (length evs)"
proof (induction evs arbitrary: st out)
  case Nil
  then show ?case by simp
next
  case (Cons x evs)
  obtain sid ev where x: "x = (sid, ev)" by (cases x)
  from Cons.prems obtain st1 out1 out2 where h: "handle js st sid ev = Inr (st1, out1)"
    and r: "run js st1 evs = Inr (st', out2)"
    by (auto simp: x split: sum.splits prod.splits)
  from Cons.IH [OF r] h show ?case by (simp add: x)
qed

lemma char_of_digits:
  "char_of (48::nat) = CHR ''0''" "char_of (49::nat) = CHR ''1''" "char_of (50::nat) = CHR ''2''"
  "char_of (51::nat) = CHR ''3''" "char_of (52::nat) = CHR ''4''" "char_of (53::nat) = CHR ''5''"
  "char_of (54::nat) = CHR ''6''" "char_of (55::nat) = CHR ''7''" "char_of (56::nat) = CHR ''8''"
  "char_of (57::nat) = CHR ''9''"
  by code_simp+

lemma digits_123456: "digits_of 123456 = ''123456''"
  by (simp add: digits_of.simps digit_char_def char_of_digits)

lemma digits_2: "digits_of 2 = ''2''"
  by code_simp

lemma sample_trace:
  "map (\<lambda>st. rooms st ''123456'') (trace js init sample_events) =
     [None,
      Some sample_room,
      Some sample_room,
      Some (sample_room\<lparr> queue := [JString ''A''] \<rparr>),
      Some (sample_room\<lparr> queue := [JString ''A''] \<rparr>),
      Some (sample_room\<lparr> queue := [JString ''A''] \<rparr>),
      Some (sample_room\<lparr> queue := [], currentSong := JString ''A'' \<rparr>)]"
  by (simp add: sample_events_def handlers inherited_objects generateRoomId_def digits_123456
      sample_room_def Let_def)

lemma sample_trace_beyond:
  "map (\<lambda>st. beyond st = None) (trace js init sample_events) =
     [True, True, True, True, True, False, False]"
  by (simp add: sample_events_def handlers inherited_objects generateRoomId_def digits_123456
      sample_room_def Let_def)

text \<open>
  C9. In every state of every run from the initial state, whatever the events, their
  senders and what the language does with the objects that are not rooms, the
  \<^verbatim>\<open>currentSong\<close> of every room is \<^verbatim>\<open>null\<close> or a value that was an element of that
  room's queue in an earlier state of the run.
\<close>

theorem currentSong_came_from_queue:
  assumes "i < length (trace js init evs)"
    and "rooms (trace js init evs ! i) k = Some room"
    and "currentSong room \<noteq> JNull"
  shows "\<exists>j<i. \<exists>room'. rooms (trace js init evs ! j) k = Some room'
           \<and> currentSong room \<in> set (queue room')"
  using trace_song [OF assms] by (simp add: init_def)

theorem currentSong_came_from_queue_witness:
  "\<forall>js. \<exists>j<6. \<exists>room'. rooms (trace js init sample_events ! j) ''123456'' = Some room'
      \<and> JString ''A'' \<in> set (queue room')"
proof
  fix js :: "'x runtime"
  let ?t = "trace js init sample_events"
  have l: "length ?t = 7"
    using arg_cong [OF sample_trace [of js], of length] by simp
  have "map (\<lambda>st. rooms st ''123456'') ?t ! 6 =
      Some (sample_room\<lparr> queue := [], currentSong := JString ''A'' \<rparr>)"
    by (simp add: sample_trace)
  then have r: "rooms (?t ! 6) ''123456'' =
      Some (sample_room\<lparr> queue := [], currentSong := JString ''A'' \<rparr>)"
    using l by simp
  show "\<exists>j<6. \<exists>room'. rooms (?t ! j) ''123456'' = Some room'
      \<and> JString ''A'' \<in> set (queue room')"
    using currentSong_came_from_queue [of 6 js sample_events "''123456''"
        "sample_room\<lparr> queue := [], currentSong := JString ''A'' \<rparr>"] l r
    by simp
qed

subsection \<open>The prototype's currentSong before the parameter takes over\<close>

lemma prototype_song_put_room [simp]: "prototype_song (put_room st k r) = prototype_song st"
  by (simp add: prototype_song_def)

lemma prototype_song_put_slots [simp]: "prototype_song (put_slots st obj s) = prototype_song st"
  by (simp add: prototype_song_def put_slots_def split: inherited.splits option.splits)

lemma prototype_song_put_prototype_array [simp]:
  "prototype_song (put_prototype_array st q) = prototype_song st"
  by (simp add: prototype_song_def put_prototype_array_def split: option.splits)

lemma prototype_song_assign_queue [simp]:
  "prototype_song (assign_queue st obj q) = prototype_song st"
  by (cases obj) (simp_all add: assign_queue_def, simp add: prototype_song_def)

lemma prototype_song_change_queue [simp]:
  "prototype_song (change_queue st obj q) = prototype_song st"
  by (simp add: change_queue_def split: option.splits)

lemma beyond_assign_queue [simp]: "beyond (assign_queue st obj q) = beyond st"
  by (simp add: assign_queue_def split: inherited.splits)

lemma beyond_change_queue [simp]: "beyond (change_queue st obj q) = beyond st"
  by (simp add: change_queue_def split: option.splits)

lemma assign_currentSong_falsy:
  assumes "beyond st = None \<longrightarrow> \<not> truthy (prototype_song st)"
    and "beyond (assign_currentSong js st obj v) = None"
  shows "\<not> truthy (prototype_song (assign_currentSong js st obj v))"
proof (cases obj)
  case (Function k)
  then show ?thesis using assms by (simp add: assign_currentSong_def)
next
  case Prototype
  then show ?thesis using assms
    by (auto simp: assign_currentSong_def prototype_song_def Let_def split: if_splits)
next
  case PrototypeQueue
  then show ?thesis using assms by (simp add: assign_currentSong_def)
qed

lemma handle_falsy:
  assumes "handle js st sid ev = Inr (st', out)"
    and "beyond st = None \<longrightarrow> \<not> truthy (prototype_song st)"
    and "beyond st' = None"
  shows "\<not> truthy (prototype_song st')"
proof -
  have same: "beyond st' = beyond st \<Longrightarrow> prototype_song st' = prototype_song st \<Longrightarrow> ?thesis"
    using assms(2,3) by simp
  have del: "\<And>x e. delegate js st x sid e = Inr (st', out) \<Longrightarrow> ?thesis"
    using assms(3) by (auto simp: delegate_def split: sum.splits prod.splits)
  show ?thesis
  proof (cases ev)
    case (CreateRoom drawn)
    then show ?thesis using assms(1) same by (auto simp: on_create_room_def Let_def)
  next
    case (JoinRoom roomId)
    then show ?thesis using assms(1) same del
      by (cases "rooms_get st roomId") (auto simp: on_join_room_def)
  next
    case (RequestSync roomId)
    then show ?thesis using assms(1) same del
      by (cases "rooms_get st roomId") (auto simp: on_request_sync_def)
  next
    case (AddToQueue roomId song)
    then show ?thesis using assms(1) same del
      by (cases "rooms_get st roomId") (auto simp: on_add_to_queue_def split: option.splits)
  next
    case (PlayerState roomId a b c d)
    then show ?thesis using assms(1) same del
      by (cases "rooms_get st roomId") (auto simp: on_player_state_def)
  next
    case (RequestNext roomId)
    show ?thesis
    proof (cases "rooms_get st roomId")
      case (Room r)
      then show ?thesis using assms(1) same RequestNext
        by (auto simp: on_request_next_def split: list.splits)
    next
      case (Inherited obj)
      then show ?thesis using assms RequestNext
        assign_currentSong_falsy [of st js obj JNull]
        assign_currentSong_falsy [of "change_queue st obj (tl (the (get_queue st obj)))" js obj
          "hd (the (get_queue st obj))"]
        by (auto simp: on_request_next_def split: option.splits list.splits)
    next
      case (Beyond x)
      then show ?thesis using assms(1) del RequestNext by (auto simp: on_request_next_def)
    next
      case Missing
      then show ?thesis using assms(1) same RequestNext by (auto simp: on_request_next_def)
    qed
  next
    case (SkipSong roomId)
    then show ?thesis using assms(1) same del
      by (cases "rooms_get st roomId") (auto simp: on_skip_song_def)
  next
    case (ClearQueue roomId)
    then show ?thesis using assms(1) same del
      by (cases "rooms_get st roomId") (auto simp: on_clear_queue_def)
  next
    case (RemoveFromQueue roomId index)
    then obtain idx res where p: "parseInt index = Inr idx"
      and g: "index_guard st roomId idx = Inr res"
      using assms(1) by (auto simp: on_remove_from_queue_def split: sum.splits)
    then show ?thesis using assms(1) same del RemoveFromQueue
      by (auto simp: on_remove_from_queue_def split: option.splits place.splits)
  next
    case (PlaySpecific roomId index)
    then obtain idx res where p: "parseInt index = Inr idx"
      and g: "index_guard st roomId idx = Inr res"
      using assms(1) by (auto simp: on_play_specific_def split: sum.splits)
    show ?thesis
    proof (cases res)
      case None
      then show ?thesis using assms(1) same p g PlaySpecific
        by (auto simp: on_play_specific_def)
    next
      case (Some t)
      show ?thesis
      proof (cases t)
        case (InRoom r i)
        then show ?thesis using assms(1) same p g Some PlaySpecific
          by (auto simp: on_play_specific_def)
      next
        case (InInherited obj q i)
        then show ?thesis using assms p g Some PlaySpecific
          assign_currentSong_falsy [of "change_queue st obj (splice1 i q)" js obj "q ! i"]
          by (auto simp: on_play_specific_def)
      next
        case (InBeyond x)
        then show ?thesis using assms(1) del p g Some PlaySpecific
          by (auto simp: on_play_specific_def)
      qed
    qed
  next
    case (TogglePlay roomId)
    then show ?thesis using assms(1) same del
      by (cases "rooms_get st roomId") (auto simp: on_toggle_play_def)
  next
    case (SetVolume roomId volume)
    then show ?thesis using assms(1) same del
      by (cases "rooms_get st roomId") (auto simp: on_set_volume_def)
  next
    case Disconnect
    then show ?thesis using assms(1) same by (simp add: on_disconnect_def)
  qed
qed

text \<open>
  In every state of a run from the initial state in which the parameter has not taken
  over, the \<^verbatim>\<open>currentSong\<close> of \<^verbatim>\<open>Object.prototype\<close> is absent or falsy: what
  \<^verbatim>\<open>rooms["currentSong"]\<close> finds there does not pass the test of a handler.
\<close>

lemma trace_falsy:
  "beyond st0 = None \<longrightarrow> \<not> truthy (prototype_song st0) \<Longrightarrow>
   i < length (trace js st0 evs) \<Longrightarrow> beyond (trace js st0 evs ! i) = None \<Longrightarrow>
   \<not> truthy (prototype_song (trace js st0 evs ! i))"
proof (induction evs arbitrary: st0 i)
  case Nil
  then show ?case by simp
next
  case (Cons x evs)
  obtain sid ev where x: "x = (sid, ev)" by (cases x)
  show ?case
  proof (cases i)
    case 0
    then show ?thesis using Cons.prems by (simp add: x)
  next
    case (Suc i')
    show ?thesis
    proof (cases "handle js st0 sid ev")
      case (Inl err)
      then show ?thesis using Cons.prems Suc by (simp add: x)
    next
      case (Inr res)
      obtain st1 out where res: "res = (st1, out)" by (cases res)
      have h: "handle js st0 sid ev = Inr (st1, out)" using Inr res by simp
      have inv: "beyond st1 = None \<longrightarrow> \<not> truthy (prototype_song st1)"
        using handle_falsy [OF h Cons.prems(1)] by blast
      have tr: "trace js st0 (x # evs) = st0 # trace js st1 evs" using h by (simp add: x)
      show ?thesis using Cons.IH [OF inv, of i'] Cons.prems(2,3) tr Suc by simp
    qed
  qed
qed

lemma prototype_song_falsy:
  "i < length (trace js init evs) \<Longrightarrow> beyond (trace js init evs ! i) = None \<Longrightarrow>
   \<not> truthy (prototype_song (trace js init evs ! i))"
  by (rule trace_falsy) (simp_all add: prototype_song_def)

subsection \<open>Digits\<close>

lemma digit_value_digit_char: "d < 10 \<Longrightarrow> digit_value (digit_char d) = Some d"
  by (simp add: digit_value_def digit_char_def Let_def)

lemma is_digit_digit_char: "d < 10 \<Longrightarrow> is_radix_digit 10 (digit_char d)"
  by (simp add: is_radix_digit_def digit_value_digit_char)

lemma digits_of_nonempty: "digits_of n \<noteq> []"
  by (subst digits_of.simps) simp

lemma digits_of_all_digits: "list_all (is_radix_digit 10) (digits_of n)"
proof (induction n rule: digits_of.induct)
  case (1 n)
  show ?case
  proof (cases "n < 10")
    case True
    then show ?thesis by (subst digits_of.simps) (simp add: is_digit_digit_char)
  next
    case False
    then show ?thesis using 1 by (subst digits_of.simps) (simp add: is_digit_digit_char)
  qed
qed

lemma foldl_radix:
  "foldl (\<lambda>acc c. acc * R + the (digit_value c)) a z =
     a * R ^ length z + foldl (\<lambda>acc c. acc * R + the (digit_value c)) 0 z"
proof (induction z arbitrary: a)
  case Nil
  then show ?case by simp
next
  case (Cons c z)
  let ?f = "\<lambda>acc c. acc * R + the (digit_value c)"
  define d where "d = the (digit_value c)"
  define t where "t = foldl ?f 0 z"
  have "foldl ?f a (c # z) = foldl ?f (a * R + d) z" by (simp add: d_def)
  also have "\<dots> = (a * R + d) * R ^ length z + t"
    unfolding t_def by (rule Cons.IH)
  finally have l: "foldl ?f a (c # z) = (a * R + d) * R ^ length z + t" .
  have "foldl ?f 0 (c # z) = foldl ?f d z" by (simp add: d_def)
  also have "\<dots> = d * R ^ length z + t"
    unfolding t_def by (rule Cons.IH)
  finally have r: "foldl ?f 0 (c # z) = d * R ^ length z + t" .
  show ?case unfolding l r by (simp add: algebra_simps)
qed

lemma radix_value_append:
  "radix_value R (a @ b) = radix_value R a * R ^ length b + radix_value R b"
  unfolding radix_value_def foldl_append by (rule foldl_radix)

lemma radix_value_single: "radix_value R [c] = the (digit_value c)"
  by (simp add: radix_value_def)

lemma radix_value_digits_of: "radix_value 10 (digits_of n) = n"
proof (induction n rule: digits_of.induct)
  case (1 n)
  show ?case
  proof (cases "n < 10")
    case True
    then show ?thesis
      by (subst digits_of.simps) (simp add: radix_value_single digit_value_digit_char)
  next
    case False
    then show ?thesis using 1
      by (subst digits_of.simps)
         (simp add: radix_value_append radix_value_single digit_value_digit_char)
  qed
qed

lemma digits_of_bounds:
  "n < 10 ^ length (digits_of n) \<and> (0 < n \<longrightarrow> 10 ^ (length (digits_of n) - 1) \<le> n)"
proof (induction n rule: digits_of.induct)
  case (1 n)
  show ?case
  proof (cases "n < 10")
    case True
    then show ?thesis by (subst (1 2) digits_of.simps) simp
  next
    case False
    then have ih: "n div 10 < 10 ^ length (digits_of (n div 10))"
      "10 ^ (length (digits_of (n div 10)) - 1) \<le> n div 10"
      using 1 by auto
    have l: "length (digits_of n) = Suc (length (digits_of (n div 10)))"
      using False by (subst digits_of.simps) simp
    have pos: "0 < length (digits_of (n div 10))"
      using digits_of_nonempty by simp
    have a: "n < 10 * 10 ^ length (digits_of (n div 10))"
      using ih(1) by (simp add: less_mult_imp_div_less mult.commute)
    have "10 * 10 ^ (length (digits_of (n div 10)) - 1) \<le> 10 * (n div 10)"
      using ih(2) by simp
    also have "\<dots> \<le> n" by simp
    finally have b: "10 ^ length (digits_of (n div 10)) \<le> n"
      using pos by (cases "length (digits_of (n div 10))") auto
    show ?thesis using a b l by simp
  qed
qed

lemma radix_value_take_digits_of:
  "j \<le> length (digits_of n) \<Longrightarrow>
   radix_value 10 (take j (digits_of n)) = n div 10 ^ (length (digits_of n) - j)"
proof (induction n arbitrary: j rule: digits_of.induct)
  case (1 n)
  show ?case
  proof (cases "n < 10")
    case True
    then have d: "digits_of n = [digit_char n]" by (subst digits_of.simps) simp
    show ?thesis
    proof (cases j)
      case 0
      then show ?thesis using True d by (simp add: radix_value_def)
    next
      case (Suc j')
      then show ?thesis using True d "1.prems"
        by (simp add: radix_value_single digit_value_digit_char)
    qed
  next
    case False
    then have d: "digits_of n = digits_of (n div 10) @ [digit_char (n mod 10)]"
      by (subst digits_of.simps) simp
    let ?l = "length (digits_of (n div 10))"
    show ?thesis
    proof (cases "j \<le> ?l")
      case True
      have "radix_value 10 (take j (digits_of n)) = radix_value 10 (take j (digits_of (n div 10)))"
        using True d by simp
      also have "\<dots> = (n div 10) div 10 ^ (?l - j)"
        using "1.IH" [OF False True] .
      also have "\<dots> = n div 10 ^ (Suc ?l - j)"
        using True by (simp add: div_mult2_eq Suc_diff_le)
      finally show ?thesis using d by simp
    next
      case False
      then have "j = Suc ?l" using "1.prems" d by simp
      then show ?thesis using d radix_value_digits_of [of n] by simp
    qed
  qed
qed

lemma strip_zeros_decomp:
  "ds = strip_zeros ds @ replicate (length ds - length (strip_zeros ds)) (CHR ''0'')"
proof -
  have "rev ds = takeWhile (\<lambda>c. c = CHR ''0'') (rev ds) @ dropWhile (\<lambda>c. c = CHR ''0'') (rev ds)"
    by simp
  moreover have "takeWhile (\<lambda>c. c = CHR ''0'') (rev ds) =
      replicate (length (takeWhile (\<lambda>c. c = CHR ''0'') (rev ds))) (CHR ''0'')"
    by (rule replicate_length_same [symmetric]) (auto dest: set_takeWhileD)
  ultimately have "rev ds = replicate (length (takeWhile (\<lambda>c. c = CHR ''0'') (rev ds))) (CHR ''0'')
      @ dropWhile (\<lambda>c. c = CHR ''0'') (rev ds)"
    by simp
  then have "ds = rev (dropWhile (\<lambda>c. c = CHR ''0'') (rev ds))
      @ replicate (length (takeWhile (\<lambda>c. c = CHR ''0'') (rev ds))) (CHR ''0'')"
    by (metis rev_append rev_replicate rev_rev_ident)
  moreover have "length (takeWhile (\<lambda>c. c = CHR ''0'') (rev ds)) =
      length ds - length (strip_zeros ds)"
    unfolding strip_zeros_def
    by (metis (no_types, lifting) add_diff_cancel_right' length_append length_rev
        takeWhile_dropWhile_id)
  ultimately show ?thesis by (simp add: strip_zeros_def)
qed

lemma radix_value_zeros: "radix_value 10 (replicate z (CHR ''0'')) = 0"
  by (induction z) (simp_all add: radix_value_def digit_value_def Let_def)

lemma strip_zeros_dvd:
  "10 ^ (length (digits_of m) - length (strip_zeros (digits_of m))) dvd m"
proof -
  let ?ds = "digits_of m"
  let ?z = "length ?ds - length (strip_zeros ?ds)"
  have "m = radix_value 10 (strip_zeros ?ds @ replicate ?z (CHR ''0''))"
    using strip_zeros_decomp [of ?ds] radix_value_digits_of [of m] by simp
  also have "\<dots> = radix_value 10 (strip_zeros ?ds) * 10 ^ ?z"
    by (simp add: radix_value_append radix_value_zeros)
  finally show ?thesis by (metis dvd_triv_right)
qed

lemma strip_zeros_length: "length (strip_zeros ds) \<le> length ds"
  by (metis strip_zeros_decomp le_add1 length_append)

subsection \<open>What parseInt reads\<close>

lemma digit_facts:
  assumes "is_radix_digit 10 c"
  shows "c \<noteq> CHR ''x''" "c \<noteq> CHR ''X''" "c \<noteq> CHR ''+''" "c \<noteq> CHR ''-''"
    "c \<noteq> CHR ''.''" "\<not> is_white_space c"
  using assms
  by (auto simp: is_radix_digit_def digit_value_def is_white_space_def Let_def
      split: if_splits)

lemma not_digit_dot: "\<not> is_radix_digit 10 (CHR ''.'')"
  using digit_facts(5) by blast

lemma zero_is_digit: "is_radix_digit 10 (CHR ''0'')"
  by (simp add: is_radix_digit_def digit_value_def Let_def)

lemma parse_radix_prefix:
  assumes "d \<noteq> []" and "list_all (is_radix_digit 10) d"
    and "rest = [] \<or> \<not> is_radix_digit 10 (hd rest)"
  shows "parse_radix 10 (d @ rest) = Some (radix_value 10 d)"
proof -
  have "takeWhile (is_radix_digit 10) (d @ rest) = d"
  proof (cases rest)
    case Nil
    then show ?thesis using assms(2) by (simp add: list_all_iff)
  next
    case (Cons c cs)
    then have "\<not> is_radix_digit 10 c" using assms(3) by simp
    then show ?thesis using assms(2) Cons
      by (simp add: list_all_iff takeWhile_append2 takeWhile_tail)
  qed
  then show ?thesis using assms(1) by (simp add: parse_radix_def)
qed

lemma no_hex_prefix:
  assumes "d \<noteq> []" and "list_all (is_radix_digit 10) d"
    and "rest = [] \<or> (hd rest \<noteq> CHR ''x'' \<and> hd rest \<noteq> CHR ''X'')"
  shows "take 2 (d @ rest) \<noteq> ''0x'' \<and> take 2 (d @ rest) \<noteq> ''0X''"
proof (cases d)
  case Nil
  then show ?thesis using assms(1) by simp
next
  case (Cons c1 d')
  show ?thesis
  proof (cases d')
    case Nil
    then show ?thesis using Cons assms(3) by (cases rest) auto
  next
    case (Cons c2 d'')
    then have "is_radix_digit 10 c2" using assms(2) \<open>d = c1 # d'\<close> by simp
    then have "c2 \<noteq> CHR ''x''" "c2 \<noteq> CHR ''X''" using digit_facts by blast+
    then show ?thesis using Cons \<open>d = c1 # d'\<close> by simp
  qed
qed

lemma parse_unsigned_prefix:
  assumes "d \<noteq> []" and "list_all (is_radix_digit 10) d"
    and "rest = [] \<or> (\<not> is_radix_digit 10 (hd rest) \<and> hd rest \<noteq> CHR ''x'' \<and> hd rest \<noteq> CHR ''X'')"
  shows "parse_unsigned (d @ rest) = Some (radix_value 10 d)"
proof -
  have "take 2 (d @ rest) \<noteq> ''0x'' \<and> take 2 (d @ rest) \<noteq> ''0X''"
    using no_hex_prefix [OF assms(1,2)] assms(3) by blast
  moreover have "parse_radix 10 (d @ rest) = Some (radix_value 10 d)"
    using parse_radix_prefix [OF assms(1,2)] assms(3) by blast
  ultimately show ?thesis by (simp add: parse_unsigned_def)
qed

lemma parseInt_string_digits:
  assumes "list_all is_white_space ws"
    and "d \<noteq> []" and "list_all (is_radix_digit 10) d"
    and "rest = [] \<or> (\<not> is_radix_digit 10 (hd rest) \<and> hd rest \<noteq> CHR ''x'' \<and> hd rest \<noteq> CHR ''X'')"
  shows "parseInt_string (ws @ d @ rest) = Some (int (radix_value 10 d))"
    and "parseInt_string (ws @ CHR ''-'' # d @ rest) = Some (- int (radix_value 10 d))"
proof -
  obtain c d' where d: "d = c # d'" using assms(2) by (cases d) auto
  then have c: "is_radix_digit 10 c" using assms(3) by simp
  have ws: "\<And>u. u = [] \<or> \<not> is_white_space (hd u) \<Longrightarrow> dropWhile is_white_space (ws @ u) = u"
  proof -
    fix u :: string
    assume "u = [] \<or> \<not> is_white_space (hd u)"
    then have "dropWhile is_white_space u = u" by (cases u) auto
    then show "dropWhile is_white_space (ws @ u) = u"
      using assms(1) by (simp add: list_all_iff dropWhile_append2)
  qed
  have p: "parse_unsigned (d @ rest) = Some (radix_value 10 d)"
    using parse_unsigned_prefix [OF assms(2,3,4)] .
  have "dropWhile is_white_space (ws @ d @ rest) = d @ rest"
    using ws [of "d @ rest"] c d digit_facts(6) by simp
  then show "parseInt_string (ws @ d @ rest) = Some (int (radix_value 10 d))"
    using p c d digit_facts(3,4) [OF c] by (simp add: parseInt_string_def Let_def)
  have "\<not> is_white_space (CHR ''-'')" by (simp add: is_white_space_def)
  then have "dropWhile is_white_space (ws @ CHR ''-'' # d @ rest) = CHR ''-'' # d @ rest"
    using ws [of "CHR ''-'' # d @ rest"] by simp
  then show "parseInt_string (ws @ CHR ''-'' # d @ rest) = Some (- int (radix_value 10 d))"
    using p by (simp add: parseInt_string_def Let_def)
qed

lemma strip_zeros_all_digits:
  "list_all (is_radix_digit 10) ds \<Longrightarrow> list_all (is_radix_digit 10) (strip_zeros ds)"
  by (metis strip_zeros_decomp list_all_append)

lemma strip_zeros_nonempty:
  assumes "0 < m"
  shows "strip_zeros (digits_of m) \<noteq> []"
proof
  assume "strip_zeros (digits_of m) = []"
  then have "digits_of m = replicate (length (digits_of m)) (CHR ''0'')"
    using strip_zeros_decomp [of "digits_of m"] by simp
  then have "radix_value 10 (digits_of m) = 0"
    using radix_value_zeros by metis
  then show False using assms radix_value_digits_of by simp
qed

lemma positive_to_string_plain:
  assumes "0 < m"
    and "- 5 \<le> e + int (length (digits_of m))"
    and "e + int (length (digits_of m)) \<le> 21"
  shows "\<exists>d rest. positive_to_string m e = d @ rest \<and> d \<noteq> []
           \<and> list_all (is_radix_digit 10) d
           \<and> (rest = [] \<or> hd rest = CHR ''.'')
           \<and> radix_value 10 d = trunc_nat m e"
proof -
  define ds where "ds = digits_of m"
  define s where "s = strip_zeros ds"
  define len where "len = length ds"
  define k where "k = length s"
  define z where "z = len - k"
  define n where "n = e + int len"
  have kl: "k \<le> len" unfolding k_def len_def s_def by (rule strip_zeros_length)
  have dec: "ds = s @ replicate z (CHR ''0'')"
    unfolding s_def z_def k_def len_def by (rule strip_zeros_decomp)
  have dig: "list_all (is_radix_digit 10) ds" unfolding ds_def by (rule digits_of_all_digits)
  have sdig: "list_all (is_radix_digit 10) s"
    unfolding s_def using dig by (rule strip_zeros_all_digits)
  have sne: "s \<noteq> []" unfolding s_def ds_def using assms(1) by (rule strip_zeros_nonempty)
  have mval: "m = radix_value 10 s * 10 ^ z"
  proof -
    have "m = radix_value 10 ds" unfolding ds_def by (simp add: radix_value_digits_of)
    also have "\<dots> = radix_value 10 (s @ replicate z (CHR ''0''))" using dec by simp
    also have "\<dots> = radix_value 10 s * 10 ^ z"
      by (simp add: radix_value_append radix_value_zeros)
    finally show ?thesis .
  qed
  have mlt: "m < 10 ^ len" unfolding len_def ds_def using digits_of_bounds by blast
  have pts: "positive_to_string m e =
      (if int k \<le> n then s @ replicate (nat (n - int k)) (CHR ''0'')
       else if 0 < n then take (nat n) s @ ''.'' @ drop (nat n) s
       else ''0.'' @ replicate (nat (- n)) (CHR ''0'') @ s)"
    using assms(2,3)
    by (simp add: positive_to_string_def Let_def ds_def [symmetric] s_def [symmetric]
        k_def [symmetric] len_def [symmetric] n_def [symmetric])
  show ?thesis
  proof (cases "int k \<le> n")
    case True
    define w where "w = nat (n - int k)"
    have str: "positive_to_string m e = (s @ replicate w (CHR ''0'')) @ []"
      using pts True by (simp add: w_def)
    have alld: "list_all (is_radix_digit 10) (s @ replicate w (CHR ''0''))"
      using sdig zero_is_digit by (auto simp: list_all_iff)
    have rv: "radix_value 10 (s @ replicate w (CHR ''0'')) = radix_value 10 s * 10 ^ w"
      by (simp add: radix_value_append radix_value_zeros)
    have weq: "int w = e + int z" using True kl by (simp add: w_def n_def z_def)
    have "radix_value 10 s * 10 ^ w = trunc_nat m e"
    proof (cases "0 \<le> e")
      case True
      then have "w = z + nat e" using weq by linarith
      then show ?thesis using True mval by (simp add: trunc_nat_def power_add)
    next
      case False
      then have zw: "z = w + nat (- e)" using weq by linarith
      have "m div 10 ^ nat (- e) = radix_value 10 s * 10 ^ w"
        unfolding mval zw by (simp add: power_add)
      then show ?thesis using False by (simp add: trunc_nat_def)
    qed
    then show ?thesis using str alld rv sne by (metis append_is_Nil_conv)
  next
    case kn: False
    show ?thesis
    proof (cases "0 < n")
      case True
      define j where "j = nat n"
      have jk: "j < k" using kn True by (simp add: j_def)
      have jpos: "0 < j" using True by (simp add: j_def)
      have eneg: "e < 0" using kn kl by (simp add: n_def)
      have str: "positive_to_string m e = take j s @ (CHR ''.'' # drop j s)"
        using pts kn True by (simp add: j_def)
      have tk: "take j s = take j ds" using dec jk by (simp add: k_def)
      have jl: "j \<le> length (digits_of m)" using jk kl by (simp add: len_def ds_def)
      have "radix_value 10 (take j s) = m div 10 ^ (len - j)"
        using radix_value_take_digits_of [OF jl] tk by (simp add: ds_def len_def)
      moreover have "int (len - j) = - e" using True jk kl by (simp add: j_def n_def)
      then have "len - j = nat (- e)" by linarith
      ultimately have rv: "radix_value 10 (take j s) = trunc_nat m e"
        using eneg by (simp add: trunc_nat_def)
      have ne: "take j s \<noteq> []" using jpos sne by (cases s) auto
      have alld: "list_all (is_radix_digit 10) (take j s)"
        using sdig by (auto simp: list_all_iff dest: in_set_takeD)
      show ?thesis using str ne alld rv by (metis list.sel(1))
    next
      case False
      have eneg: "e < 0" using kn kl by (simp add: n_def)
      have str: "positive_to_string m e = ''0'' @ (CHR ''.'' # replicate (nat (- n)) (CHR ''0'') @ s)"
        using pts kn False by simp
      have "len \<le> nat (- e)" using False by (simp add: n_def)
      then have "(10::nat) ^ len \<le> 10 ^ nat (- e)" by (simp add: power_increasing)
      with mlt have "m < 10 ^ nat (- e)" by (rule less_le_trans)
      then have "m div 10 ^ nat (- e) = 0" by (rule div_less)
      then have rv: "radix_value 10 ''0'' = trunc_nat m e"
        using eneg by (simp add: trunc_nat_def radix_value_def digit_value_def Let_def)
      have alld: "list_all (is_radix_digit 10) ''0''" using zero_is_digit by simp
      show ?thesis using str alld rv by (metis list.sel(1) not_Cons_self2)
    qed
  qed
qed

lemma plain_magnitude_digits:
  assumes "plain_magnitude (Dec neg m e)"
  shows "0 < m" and "- 5 \<le> e + int (length (digits_of m))"
    and "e + int (length (digits_of m)) \<le> 21"
proof -
  let ?len = "length (digits_of m)"
  from assms have lo: "10 ^ nat (- e) \<le> m * 10 ^ (6 + nat e)"
    and hi: "m * 10 ^ nat e < 10 ^ (21 + nat (- e))" by simp_all
  show mpos: "0 < m"
  proof (rule ccontr)
    assume "\<not> 0 < m"
    then have "m = 0" by simp
    then show False using lo by simp
  qed
  have up: "m < 10 ^ ?len" and low: "10 ^ (?len - 1) \<le> m"
    using digits_of_bounds [of m] mpos by blast+
  have "m * 10 ^ (6 + nat e) < 10 ^ ?len * 10 ^ (6 + nat e)"
    using up by (rule mult_strict_right_mono) simp
  also have "\<dots> = 10 ^ (?len + (6 + nat e))" by (simp only: power_add)
  finally have lt: "m * 10 ^ (6 + nat e) < 10 ^ (?len + (6 + nat e))" .
  from lo lt have "(10::nat) ^ nat (- e) < 10 ^ (?len + (6 + nat e))"
    by (rule le_less_trans)
  then have "nat (- e) < ?len + (6 + nat e)"
    by (rule power_less_imp_less_exp [rotated]) simp
  then show "- 5 \<le> e + int ?len" by linarith
  have "10 ^ (?len - 1) * 10 ^ nat e \<le> m * 10 ^ nat e"
    using low by (rule mult_right_mono) simp
  then have "(10::nat) ^ (?len - 1) * 10 ^ nat e < 10 ^ (21 + nat (- e))"
    using hi by (rule le_less_trans)
  then have "(10::nat) ^ (?len - 1 + nat e) < 10 ^ (21 + nat (- e))"
    by (simp only: power_add)
  then have "?len - 1 + nat e < 21 + nat (- e)"
    by (rule power_less_imp_less_exp [rotated]) simp
  then show "e + int ?len \<le> 21" by linarith
qed

lemma parseInt_plain:
  assumes "plain_magnitude x"
  shows "parseInt (JNumber x) = Inr (Some (trunc_num x))"
proof (cases x)
  case (Dec neg m e)
  from plain_magnitude_digits [of neg m e] assms Dec
  have mpos: "0 < m" and lo: "- 5 \<le> e + int (length (digits_of m))"
    and hi: "e + int (length (digits_of m)) \<le> 21" by simp_all
  from positive_to_string_plain [OF mpos lo hi] obtain d rest where
    str: "positive_to_string m e = d @ rest" and ne: "d \<noteq> []"
    and dig: "list_all (is_radix_digit 10) d"
    and rest: "rest = [] \<or> hd rest = CHR ''.''"
    and rv: "radix_value 10 d = trunc_nat m e"
    by blast
  have rest': "rest = [] \<or> (\<not> is_radix_digit 10 (hd rest) \<and> hd rest \<noteq> CHR ''x''
      \<and> hd rest \<noteq> CHR ''X'')"
    using rest not_digit_dot by auto
  have ws: "list_all is_white_space []" by simp
  from parseInt_string_digits [OF ws ne dig rest']
  have p: "parseInt_string (d @ rest) = Some (int (radix_value 10 d))"
    and n: "parseInt_string (CHR ''-'' # d @ rest) = Some (- int (radix_value 10 d))"
    by simp_all
  show ?thesis using Dec mpos str p n rv by (simp add: parseInt_def)
qed (use assms in simp_all)


lemma parseInt_string_nan:
  assumes "no_numeric_prefix s"
  shows "parseInt_string s = None"
proof -
  define t where "t = dropWhile is_white_space s"
  define u where "u = (if t \<noteq> [] \<and> (hd t = CHR ''+'' \<or> hd t = CHR ''-'') then tl t else t)"
  have u: "u = [] \<or> \<not> is_radix_digit 10 (hd u)"
    using assms unfolding no_numeric_prefix_def Let_def t_def u_def .
  have hex: "take 2 u \<noteq> ''0x'' \<and> take 2 u \<noteq> ''0X''"
  proof (cases u)
    case Nil
    then show ?thesis by simp
  next
    case (Cons c cs)
    then have "c \<noteq> CHR ''0''" using u zero_is_digit by auto
    then show ?thesis using Cons by (cases cs) auto
  qed
  have "takeWhile (is_radix_digit 10) u = []" using u by (cases u) auto
  then have "parse_unsigned u = None" using hex by (simp add: parse_unsigned_def parse_radix_def)
  then show ?thesis by (simp add: parseInt_string_def Let_def t_def [symmetric] u_def [symmetric])
qed

lemma index_guard_nan [simp]: "index_guard st r None = Inr None"
  by (simp add: index_guard_def split: found.splits)

lemma nan_is_noop: "parseInt index = Inr None \<Longrightarrow> is_noop js st sid r index"
  by (simp add: is_noop_def on_remove_from_queue_def on_play_specific_def)

lemma outside_is_noop:
  assumes "rooms st r = Some room" and "parseInt index = Inr (Some i)"
    and "i < 0 \<or> int (length (queue room)) \<le> i"
  shows "is_noop js st sid r index"
proof -
  have "index_guard st r (Some i) = Inr None"
    using assms(1,3) by (auto simp: index_guard_def)
  then show ?thesis using assms(2)
    by (simp add: is_noop_def on_remove_from_queue_def on_play_specific_def)
qed

lemma inside_acts:
  assumes "rooms st r = Some room" and "parseInt index = Inr (Some (int t))"
    and "t < length (queue room)"
  shows "acts_on_position js st sid r index room t"
proof -
  have "index_guard st r (Some (int t)) = Inr (Some (InRoom room t))"
    using assms(1,3) by (simp add: index_guard_def)
  then show ?thesis using assms(1,2)
    by (simp add: acts_on_position_def on_remove_from_queue_def on_play_specific_def)
qed

subsection \<open>The index handlers\<close>

lemma parseInt_1e21: "parseInt (JNumber (Dec False 1 21)) = Inr (Some (int 1))"
  by code_simp

lemma parseInt_minus_half: "parseInt (JNumber (Dec True 5 (- 1))) = Inr (Some (int 0))"
  by code_simp

lemma parseInt_5e_7: "parseInt (JNumber (Dec False 5 (- 7))) = Inr (Some 5)"
  by code_simp

lemma no_prefix_abc: "no_numeric_prefix ''abc''"
  by code_simp

lemma rest_abc:
  "''abc'' = [] \<or> (\<not> is_radix_digit 10 (hd ''abc'') \<and> hd ''abc'' \<noteq> CHR ''x'' \<and> hd ''abc'' \<noteq> CHR ''X'')"
  by code_simp

text \<open>
  C3. For an index outside \<open>[0, len)\<close> both index handlers must do nothing. The
  handlers test \<^verbatim>\<open>idx >= 0 && idx < length\<close> on \<open>idx = parseInt(index)\<close>, and
  \<^verbatim>\<open>parseInt\<close> reads the decimal text of the index. On a room that holds the queue
  \<open>[A, B, C]\<close>: the number \<open>10\<^sup>2\<^sup>1\<close> is an integer outside \<open>[0, 3)\<close>; it prints as
  \<^verbatim>\<open>1e+21\<close>, \<^verbatim>\<open>parseInt\<close> reads \<open>1\<close>, and \<^verbatim>\<open>remove-from-queue\<close> removes \<open>B\<close> and
  tells the room. The number \<open>-0.5\<close> is below zero; it prints as \<^verbatim>\<open>-0.5\<close>,
  \<^verbatim>\<open>parseInt\<close> reads \<^verbatim>\<open>-0\<close>, and \<^verbatim>\<open>play-specific\<close> plays \<open>A\<close>.
\<close>

theorem index_outside_range_acts:
  "rooms sample_three ''123456'' =
     Some \<lparr> host = ''h1'', queue = [JString ''A'', JString ''B'', JString ''C''],
            currentSong = JNull \<rparr>
   \<and> \<not> number_in_range (Dec False 1 21) 3
   \<and> (\<exists>st'. handle js sample_three ''s2'' (RemoveFromQueue ''123456'' (JNumber (Dec False 1 21))) =
          Inr (st', [Emit (IoTo ''123456'') ''queue-updated''
                       [JArray [JString ''A'', JString ''C'']]])
        \<and> rooms st' ''123456'' =
            Some \<lparr> host = ''h1'', queue = [JString ''A'', JString ''C''],
                   currentSong = JNull \<rparr>)
   \<and> \<not> number_in_range (Dec True 5 (- 1)) 3
   \<and> (\<exists>st'. handle js sample_three ''s2'' (PlaySpecific ''123456'' (JNumber (Dec True 5 (- 1)))) =
          Inr (st', [Emit (IoTo ''123456'') ''play-song'' [JString ''A''],
                     Emit (IoTo ''123456'') ''queue-updated''
                       [JArray [JString ''B'', JString ''C'']]])
        \<and> rooms st' ''123456'' =
            Some \<lparr> host = ''h1'', queue = [JString ''B'', JString ''C''],
                   currentSong = JString ''A'' \<rparr>)"
proof -
  let ?room = "sample_room\<lparr> queue := [JString ''A'', JString ''B'', JString ''C''] \<rparr>"
  have a: "acts_on_position js sample_three ''s2'' ''123456'' (JNumber (Dec False 1 21)) ?room 1"
    using inside_acts [OF rooms_sample_three parseInt_1e21, of js "''s2''"] by simp
  have b: "acts_on_position js sample_three ''s2'' ''123456'' (JNumber (Dec True 5 (- 1))) ?room 0"
    using inside_acts [OF rooms_sample_three parseInt_minus_half, of js "''s2''"] by simp
  have r: "rooms sample_three ''123456'' =
     Some \<lparr> host = ''h1'', queue = [JString ''A'', JString ''B'', JString ''C''],
            currentSong = JNull \<rparr>"
    by (simp add: sample_room_def)
  have n: "\<not> number_in_range (Dec False 1 21) 3" "\<not> number_in_range (Dec True 5 (- 1)) 3"
    by simp_all
  have c: "\<exists>st'. handle js sample_three ''s2''
             (RemoveFromQueue ''123456'' (JNumber (Dec False 1 21))) =
          Inr (st', [Emit (IoTo ''123456'') ''queue-updated''
                       [JArray [JString ''A'', JString ''C'']]])
        \<and> rooms st' ''123456'' =
            Some \<lparr> host = ''h1'', queue = [JString ''A'', JString ''C''],
                   currentSong = JNull \<rparr>"
    using a by (simp add: acts_on_position_def splice1_def sample_room_def)
  have d: "\<exists>st'. handle js sample_three ''s2''
             (PlaySpecific ''123456'' (JNumber (Dec True 5 (- 1)))) =
          Inr (st', [Emit (IoTo ''123456'') ''play-song'' [JString ''A''],
                     Emit (IoTo ''123456'') ''queue-updated''
                       [JArray [JString ''B'', JString ''C'']]])
        \<and> rooms st' ''123456'' =
            Some \<lparr> host = ''h1'', queue = [JString ''B'', JString ''C''],
                   currentSong = JString ''A'' \<rparr>"
    using b by (simp add: acts_on_position_def splice1_def sample_room_def)
  from r n c d show ?thesis by blast
qed

text \<open>
  C10, as the code has it. The index is coerced with \<^verbatim>\<open>parseInt\<close> before the range
  check. For a non-integer number of magnitude from \<open>10\<^sup>-\<^sup>6\<close> up to \<open>10\<^sup>2\<^sup>1\<close> whose
  truncation \<open>t\<close> is a position of the queue, and for a string of white space, the
  decimal digits of such a \<open>t\<close> and a rest that starts with neither a digit nor
  \<^verbatim>\<open>x\<close> or \<^verbatim>\<open>X\<close>, both handlers act on position \<open>t\<close>. An index whose string has no
  leading numeric prefix is a no-op in every state.
\<close>

theorem index_coercion:
  "(\<forall>x t. rooms st r = Some room \<longrightarrow> \<not> is_integer_num x \<longrightarrow> plain_magnitude x \<longrightarrow>
       trunc_num x = int t \<longrightarrow> t < length (queue room) \<longrightarrow>
       acts_on_position js st sid r (JNumber x) room t)
   \<and> (\<forall>ws t rest. rooms st r = Some room \<longrightarrow> list_all is_white_space ws \<longrightarrow>
       (rest = [] \<or> (\<not> is_radix_digit 10 (hd rest) \<and> hd rest \<noteq> CHR ''x'' \<and> hd rest \<noteq> CHR ''X'')) \<longrightarrow>
       t < length (queue room) \<longrightarrow>
       acts_on_position js st sid r (JString (ws @ digits_of t @ rest)) room t)
   \<and> (\<forall>index s. ToString index = Inr s \<longrightarrow> no_numeric_prefix s \<longrightarrow> is_noop js st sid r index)"
proof (intro conjI allI impI)
  fix x t
  assume "rooms st r = Some room" "plain_magnitude x" "trunc_num x = int t"
    "t < length (queue room)"
  then show "acts_on_position js st sid r (JNumber x) room t"
    using inside_acts parseInt_plain by metis
next
  fix ws t rest
  assume r: "rooms st r = Some room" and ws: "list_all is_white_space ws"
    and rest: "rest = [] \<or> (\<not> is_radix_digit 10 (hd rest) \<and> hd rest \<noteq> CHR ''x''
      \<and> hd rest \<noteq> CHR ''X'')"
    and t: "t < length (queue room)"
  have "parseInt_string (ws @ digits_of t @ rest) = Some (int (radix_value 10 (digits_of t)))"
    using parseInt_string_digits(1) [OF ws digits_of_nonempty digits_of_all_digits rest] .
  then have "parseInt (JString (ws @ digits_of t @ rest)) = Inr (Some (int t))"
    by (simp add: parseInt_def radix_value_digits_of)
  then show "acts_on_position js st sid r (JString (ws @ digits_of t @ rest)) room t"
    using inside_acts [OF r _ t] by blast
next
  fix index s
  assume "ToString index = Inr s" "no_numeric_prefix s"
  then have "parseInt index = Inr None"
    by (simp add: parseInt_def parseInt_string_nan)
  then show "is_noop js st sid r index" by (rule nan_is_noop)
qed

theorem index_coercion_witness:
  "\<forall>js.
     acts_on_position js sample_three ''s2'' ''123456'' (JNumber (Dec False 19 (- 1)))
       (sample_room\<lparr> queue := [JString ''A'', JString ''B'', JString ''C''] \<rparr>) 1
     \<and> acts_on_position js sample_three ''s2'' ''123456'' (JString ''2abc'')
       (sample_room\<lparr> queue := [JString ''A'', JString ''B'', JString ''C''] \<rparr>) 2
     \<and> is_noop js sample_three ''s2'' ''123456'' (JString ''abc'')"
proof
  fix js :: "'x runtime"
  let ?room = "sample_room\<lparr> queue := [JString ''A'', JString ''B'', JString ''C''] \<rparr>"
  note t = index_coercion [where st = sample_three and r = "''123456''" and room = ?room
      and js = js and sid = "''s2''"]
  have n1: "\<not> is_integer_num (Dec False 19 (- 1))" by simp
  have n2: "plain_magnitude (Dec False 19 (- 1))" by simp
  have n3: "trunc_num (Dec False 19 (- 1)) = int 1" by (simp add: trunc_nat_def)
  have n4: "1 < length (queue ?room)" by simp
  have a: "acts_on_position js sample_three ''s2'' ''123456''
      (JNumber (Dec False 19 (- 1))) ?room 1"
    using t rooms_sample_three n1 n2 n3 n4 by blast
  have s1: "list_all is_white_space []" by simp
  have s2: "2 < length (queue ?room)" by simp
  have "acts_on_position js sample_three ''s2'' ''123456''
      (JString ([] @ digits_of 2 @ ''abc'')) ?room 2"
    using t rooms_sample_three s1 rest_abc s2 by blast
  then have b: "acts_on_position js sample_three ''s2'' ''123456'' (JString ''2abc'') ?room 2"
    by (simp add: digits_2)
  have "ToString (JString ''abc'') = Inr ''abc''" by simp
  then have c: "is_noop js sample_three ''s2'' ''123456'' (JString ''abc'')"
    using t no_prefix_abc by blast
  show "acts_on_position js sample_three ''s2'' ''123456'' (JNumber (Dec False 19 (- 1))) ?room 1
     \<and> acts_on_position js sample_three ''s2'' ''123456'' (JString ''2abc'') ?room 2
     \<and> is_noop js sample_three ''s2'' ''123456'' (JString ''abc'')"
    using a b c by simp
qed

text \<open>
  The statement of C10 taken for every non-integer number fails. The number
  \<open>5 \<times> 10\<^sup>-\<^sup>7\<close> is not an integer and truncates to \<open>0\<close>, a position of a queue of three;
  it prints as \<^verbatim>\<open>5e-7\<close>, \<^verbatim>\<open>parseInt\<close> reads \<open>5\<close>, and both handlers do nothing.
\<close>

theorem index_coercion_counterexample:
  "\<forall>js.
     \<not> is_integer_num (Dec False 5 (- 7))
     \<and> trunc_num (Dec False 5 (- 7)) = 0
     \<and> handle js sample_three ''s2''
         (RemoveFromQueue ''123456'' (JNumber (Dec False 5 (- 7)))) = Inr (sample_three, [])
     \<and> handle js sample_three ''s2''
         (PlaySpecific ''123456'' (JNumber (Dec False 5 (- 7)))) = Inr (sample_three, [])"
proof
  fix js :: "'x runtime"
  show "\<not> is_integer_num (Dec False 5 (- 7))
     \<and> trunc_num (Dec False 5 (- 7)) = 0
     \<and> handle js sample_three ''s2''
         (RemoveFromQueue ''123456'' (JNumber (Dec False 5 (- 7)))) = Inr (sample_three, [])
     \<and> handle js sample_three ''s2''
         (PlaySpecific ''123456'' (JNumber (Dec False 5 (- 7)))) = Inr (sample_three, [])"
    using outside_is_noop [OF rooms_sample_three parseInt_5e_7, of js "''s2''"]
    by (simp add: is_noop_def trunc_nat_def)
qed

subsection \<open>Search\<close>

text \<open>
  C8. A request whose \<^verbatim>\<open>q\<close> is missing (or falsy) is answered with status 400 and
  the provider is not asked. With a truthy \<^verbatim>\<open>q\<close> the provider is called with the
  text of \<^verbatim>\<open>q\<close> followed by \<^verbatim>\<open> karaoke\<close> unless the parameter \<^verbatim>\<open>karaokeOnly\<close> is the
  string \<^verbatim>\<open>false\<close>, and with \<^verbatim>\<open>q\<close> itself when it is. When that call fails the
  response is status 500 with the error message. When it returns videos the response
  is status 200 with one item for each of the first fifteen videos, in the provider's
  order, the item holding the video's id, title, thumbnail, time stamp (as
  \<^verbatim>\<open>duration\<close>) and author's name.
\<close>

theorem search_responses:
  "(\<not> truthy query \<longrightarrow>
      api_search yts query karaokeOnlyParam =
        \<lparr> status = 400, body = JObject [(''error'', JString ''Query is required'')] \<rparr>)
   \<and> (truthy query \<longrightarrow>
        (karaokeOnlyParam \<noteq> JString ''false'' \<and> ToString query = Inr s
           \<and> asked = JString (s @ '' karaoke'')
         \<or> karaokeOnlyParam = JString ''false'' \<and> asked = query) \<longrightarrow>
        (yts asked = None \<longrightarrow>
           api_search yts query karaokeOnlyParam =
             \<lparr> status = 500,
               body = JObject [(''error'', JString ''Failed to search YouTube'')] \<rparr>)
        \<and> (\<forall>videos. yts asked = Some videos \<longrightarrow>
             (\<exists>items.
                api_search yts query karaokeOnlyParam = \<lparr> status = 200, body = JArray items \<rparr>
                \<and> length items = min 15 (length videos)
                \<and> (\<forall>i<length items.
                      items ! i =
                        JObject [(''id'', videoId (videos ! i)),
                                 (''title'', title (videos ! i)),
                                 (''thumbnail'', thumbnail (videos ! i)),
                                 (''duration'', timestamp (videos ! i)),
                                 (''author'', name (author (videos ! i)))]))))"
proof (intro conjI impI allI)
  assume "\<not> truthy query"
  then show "api_search yts query karaokeOnlyParam =
      \<lparr> status = 400, body = JObject [(''error'', JString ''Query is required'')] \<rparr>"
    by (simp add: api_search_def)
next
  assume q: "truthy query"
    and k: "karaokeOnlyParam \<noteq> JString ''false'' \<and> ToString query = Inr s
           \<and> asked = JString (s @ '' karaoke'')
         \<or> karaokeOnlyParam = JString ''false'' \<and> asked = query"
  then have a: "api_search yts query karaokeOnlyParam = respond (yts asked)"
    by (auto simp: api_search_def searchQuery_def)
  {
    assume "yts asked = None"
    then show "api_search yts query karaokeOnlyParam =
        \<lparr> status = 500, body = JObject [(''error'', JString ''Failed to search YouTube'')] \<rparr>"
      using a by (simp add: respond_def)
  }
  {
    fix videos
    assume v: "yts asked = Some videos"
    let ?items = "map song_of (take 15 videos)"
    have "api_search yts query karaokeOnlyParam = \<lparr> status = 200, body = JArray ?items \<rparr>
        \<and> length ?items = min 15 (length videos)
        \<and> (\<forall>i<length ?items.
              ?items ! i =
                JObject [(''id'', videoId (videos ! i)),
                         (''title'', title (videos ! i)),
                         (''thumbnail'', thumbnail (videos ! i)),
                         (''duration'', timestamp (videos ! i)),
                         (''author'', name (author (videos ! i)))])"
      using a v by (simp add: respond_def song_of_def min_def)
    then show "\<exists>items.
        api_search yts query karaokeOnlyParam = \<lparr> status = 200, body = JArray items \<rparr>
        \<and> length items = min 15 (length videos)
        \<and> (\<forall>i<length items.
              items ! i =
                JObject [(''id'', videoId (videos ! i)),
                         (''title'', title (videos ! i)),
                         (''thumbnail'', thumbnail (videos ! i)),
                         (''duration'', timestamp (videos ! i)),
                         (''author'', name (author (videos ! i)))])"
      by blast
  }
qed

theorem search_responses_witness:
  "api_search sample_yts JUndefined JUndefined =
     \<lparr> status = 400, body = JObject [(''error'', JString ''Query is required'')] \<rparr>
   \<and> api_search sample_yts (JString ''abba'') (JString ''false'') =
       \<lparr> status = 500, body = JObject [(''error'', JString ''Failed to search YouTube'')] \<rparr>
   \<and> (\<exists>items.
        api_search sample_yts (JString ''abba'') JUndefined =
          \<lparr> status = 200, body = JArray items \<rparr>
        \<and> length items = 2
        \<and> items ! 0 =
            JObject [(''id'', JString ''v1''), (''title'', JString ''t''),
                     (''thumbnail'', JString ''u''), (''duration'', JString ''3:05''),
                     (''author'', JString ''a'')]
        \<and> items ! 1 =
            JObject [(''id'', JString ''v2''), (''title'', JString ''t''),
                     (''thumbnail'', JString ''u''), (''duration'', JString ''3:05''),
                     (''author'', JString ''a'')])"
proof -
  have a: "api_search sample_yts JUndefined JUndefined =
     \<lparr> status = 400, body = JObject [(''error'', JString ''Query is required'')] \<rparr>"
    using search_responses [where query = JUndefined and yts = sample_yts
        and karaokeOnlyParam = JUndefined]
    by simp
  have b: "api_search sample_yts (JString ''abba'') (JString ''false'') =
       \<lparr> status = 500, body = JObject [(''error'', JString ''Failed to search YouTube'')] \<rparr>"
    using search_responses [where query = "JString ''abba''" and yts = sample_yts
        and karaokeOnlyParam = "JString ''false''" and asked = "JString ''abba''"]
    by (simp add: sample_yts_def)
  from search_responses [where query = "JString ''abba''" and yts = sample_yts
      and karaokeOnlyParam = JUndefined and s = "''abba''"
      and asked = "JString ''abba karaoke''"]
  obtain items where i: "api_search sample_yts (JString ''abba'') JUndefined =
      \<lparr> status = 200, body = JArray items \<rparr>"
    and l: "length items = 2"
    and n: "\<forall>i<length items.
        items ! i =
          JObject [(''id'', videoId ([sample_video ''v1'', sample_video ''v2''] ! i)),
                   (''title'', title ([sample_video ''v1'', sample_video ''v2''] ! i)),
                   (''thumbnail'', thumbnail ([sample_video ''v1'', sample_video ''v2''] ! i)),
                   (''duration'', timestamp ([sample_video ''v1'', sample_video ''v2''] ! i)),
                   (''author'', name (author ([sample_video ''v1'', sample_video ''v2''] ! i)))]"
    by (auto simp: sample_yts_def)
  from n l have "items ! 0 =
            JObject [(''id'', JString ''v1''), (''title'', JString ''t''),
                     (''thumbnail'', JString ''u''), (''duration'', JString ''3:05''),
                     (''author'', JString ''a'')]
        \<and> items ! 1 =
            JObject [(''id'', JString ''v2''), (''title'', JString ''t''),
                     (''thumbnail'', JString ''u''), (''duration'', JString ''3:05''),
                     (''author'', JString ''a'')]"
    by (simp add: sample_video_def)
  with a b i l show ?thesis by blast
qed

end
